theory Spec2Isabelle
  imports Main "HOL-Library.Word"
begin

section \<open>The URL shortener: data model, repository, cache and service\<close>

text \<open>
  The development follows the Go sources of the API:
  \<^item> \<^verbatim>\<open>internal/model/url.go\<close>: the TTL table, the row type \<open>URL\<close>, the cache payload
    \<open>CachedURL\<close> and the projection \<open>ToCached\<close>;
  \<^item> the MySQL repository (\<open>Create\<close>, \<open>FindBySlug\<close>, \<open>SlugExists\<close>, \<open>ExpireBySlug\<close>,
    \<open>DeleteExpired\<close>) and the Redis cache (\<open>Get\<close>, \<open>Set\<close>, \<open>Delete\<close>);
  \<^item> \<^verbatim>\<open>internal/service/url_service.go\<close>: \<open>Create\<close>, \<open>Resolve\<close>, \<open>VerifyPassword\<close>,
    \<open>lookupCached\<close>, \<open>ExpireEarly\<close>, \<open>CheckSlug\<close>, \<open>resolveSlug\<close>, \<open>generateUniqueSlug\<close>,
    \<open>suggestAlternative\<close>, \<open>randomBase62\<close> and \<open>generateManageToken\<close>.

  Conventions. Go strings are byte strings: \<open>string\<close>. Instants and durations are
  integers counting nanoseconds, as \<open>time.Duration\<close> does. The table is the list of its
  rows; the cache is a map from keys to a payload with its deadline. Every function that
  writes returns its result together with the new state, so that what an error path has
  written is part of the model. What the libraries and the servers do (the collation of
  the table, SHA-256, bcrypt, a failing query or cache command) is a parameter, collected
  in the record \<open>env\<close>: the theorems hold for each choice of it.
\<close>

subsection \<open>Constants of the service\<close>

type_synonym byte = "8 word"

definition autoSlugLength :: nat where "autoSlugLength = 8"
definition manageTokenLength :: nat where "manageTokenLength = 32"
definition maxCollisionTries :: nat where "maxCollisionTries = 10"
definition maxAutoSlugTries :: nat where "maxAutoSlugTries = 10"
definition slugMinLength :: nat where "slugMinLength = 5"
definition slugMaxLength :: nat where "slugMaxLength = 50"

definition base62Chars :: string where
  "base62Chars = ''0123456789ABCDEFGHIJKLMNOPQRSTUVWXYZabcdefghijklmnopqrstuvwxyz''"

subsection \<open>The slug pattern\<close>

text \<open>
  \<^verbatim>\<open>^[a-zA-Z0-9-]{5,50}$\<close>: a character class given by its ranges, repeated between a
  lower and an upper count, anchored at both ends of the text. The matcher consumes the
  text one character at a time and counts the repetitions down. (Go's \<open>$\<close> without the
  multi-line flag matches at the end of the text only; a byte outside ASCII is in none of
  the ranges.)
\<close>

fun in_ranges :: "(char \<times> char) list \<Rightarrow> char \<Rightarrow> bool" where
  "in_ranges [] c = False"
| "in_ranges ((lo, hi) # rs) c =
     ((of_char lo \<le> (of_char c :: nat) \<and> (of_char c :: nat) \<le> of_char hi) \<or> in_ranges rs c)"

fun match_repeat :: "(char \<times> char) list \<Rightarrow> nat \<Rightarrow> nat \<Rightarrow> string \<Rightarrow> bool" where
  "match_repeat cls lo hi [] = (lo = 0)"
| "match_repeat cls lo hi (c # cs) =
     (0 < hi \<and> in_ranges cls c \<and> match_repeat cls (lo - 1) (hi - 1) cs)"

definition slug_class :: "(char \<times> char) list" where
  "slug_class =
     [(CHR ''a'', CHR ''z''), (CHR ''A'', CHR ''Z''), (CHR ''0'', CHR ''9''), (CHR ''-'', CHR ''-'')]"

definition slugPattern_MatchString :: "string \<Rightarrow> bool" where
  "slugPattern_MatchString s = match_repeat slug_class slugMinLength slugMaxLength s"

subsection \<open>The model (\<^verbatim>\<open>internal/model/url.go\<close>)\<close>

type_synonym TTL = string

definition Hour :: int where "Hour = 3600000000000"

definition TTL1Hour :: TTL where "TTL1Hour = ''1h''"
definition TTL1Day :: TTL where "TTL1Day = ''24h''"
definition TTL1Week :: TTL where "TTL1Week = ''168h''"
definition TTL1Month :: TTL where "TTL1Month = ''720h''"
definition TTL1Year :: TTL where "TTL1Year = ''8760h''"

definition ValidTTLs :: "TTL \<rightharpoonup> int" where
  "ValidTTLs =
     [TTL1Hour \<mapsto> Hour,
      TTL1Day \<mapsto> 24 * Hour,
      TTL1Week \<mapsto> 7 * 24 * Hour,
      TTL1Month \<mapsto> 30 * 24 * Hour,
      TTL1Year \<mapsto> 365 * 24 * Hour]"

text \<open>
  The row of table \<open>urls\<close>, with the five columns the service writes. The surrogate key
  \<open>id\<close> and \<open>created_at\<close> are filled in by the database and read by no function of the
  service; they are left out.
\<close>

record URL =
  Slug :: string
  TargetURL :: string
  PasswordHash :: "string option"
  ManageTokenHash :: string
  ExpiresAt :: int

record CachedURL =
  cached_TargetURL :: string
  cached_Protected :: bool
  cached_PasswordHash :: string

definition ToCached :: "URL \<Rightarrow> CachedURL" where
  "ToCached u =
     \<lparr>cached_TargetURL = TargetURL u,
      cached_Protected = (PasswordHash u \<noteq> None),
      cached_PasswordHash = (case PasswordHash u of None \<Rightarrow> [] | Some h \<Rightarrow> h)\<rparr>"

subsection \<open>Errors\<close>

datatype error =
    ErrSlugTaken
  | ErrInvalidSlugFormat
  | ErrInvalidTTL
  | ErrInvalidPassword
  | ErrInvalidManageToken
  | ErrNoUniqueSlug             \<comment> \<open>"failed to generate a unique slug after 10 attempts"\<close>
  | ErrGeneratingRandomSlug     \<comment> \<open>"generating random slug: ..."\<close>
  | ErrHashingPassword          \<comment> \<open>"hashing password: ..."\<close>
  | ErrGeneratingManageToken    \<comment> \<open>"generating manage token: ..."\<close>
  | ErrRandRead                 \<comment> \<open>a failing \<open>rand.Read\<close>\<close>
  | ErrInsertingURL             \<comment> \<open>"inserting url: ..."\<close>
  | ErrFindingURL               \<comment> \<open>"finding url by slug: ..."\<close>
  | ErrCheckingSlug             \<comment> \<open>"checking slug existence: ..."\<close>
  | ErrExpiringURL              \<comment> \<open>"expiring url: ..."\<close>
  | ErrDeletingExpired          \<comment> \<open>"deleting expired urls: ..."\<close>
  | ErrRedisGet                 \<comment> \<open>"getting from redis: ..." or "unmarshaling cached url: ..."\<close>
  | ErrRedisSet                 \<comment> \<open>"marshaling cached url: ..." or "setting in redis: ..."\<close>
  | ErrRedisDelete              \<comment> \<open>"deleting from redis: ..."\<close>

subsection \<open>The environment\<close>

datatype db_query =
    QInsert URL
  | QFind string
  | QExists string
  | QExpire string string
  | QDeleteExpired

datatype cache_op = CGet string | CSet string | CDelete string

text \<open>The value of \<open>sha256.Sum256\<close>, a \<open>[32]byte\<close>.\<close>

typedef digest = "{bs :: byte list. length bs = 32}"
  by (rule exI [of _ "replicate 32 0"]) simp

text \<open>
  \<^item> \<open>collate\<close>: the key under which the table's collation compares two strings: the
    comparison \<open>col = ?\<close> of a query holds when both sides have the same key (the identity
    for a binary collation, case folding for a case-insensitive one);
  \<^item> \<open>db_fails\<close>, \<open>cache_fails\<close>: the queries and cache commands that fail;
  \<^item> \<open>sha256_Sum256\<close>, \<open>bcrypt_GenerateFromPassword\<close> (\<open>None\<close> is its error),
    \<open>bcrypt_CompareHashAndPassword\<close> (hash first, \<open>True\<close> is a \<open>nil\<close> error).
\<close>

record env =
  collate :: "string \<Rightarrow> string"
  db_fails :: "db_query \<Rightarrow> bool"
  cache_fails :: "cache_op \<Rightarrow> bool"
  sha256_Sum256 :: "string \<Rightarrow> digest"
  bcrypt_GenerateFromPassword :: "string \<Rightarrow> string option"
  bcrypt_CompareHashAndPassword :: "string \<Rightarrow> string \<Rightarrow> bool"

definition hextable :: string where "hextable = ''0123456789abcdef''"

definition hex_EncodeToString :: "byte list \<Rightarrow> string" where
  "hex_EncodeToString bs =
     concat (map (\<lambda>b. [hextable ! (unat b div 16), hextable ! (unat b mod 16)]) bs)"

subsection \<open>The MySQL repository\<close>

text \<open>
  Column \<^verbatim>\<open>expires_at TIMESTAMP NOT NULL\<close> (\<^verbatim>\<open>migrations/bootstrap.sql\<close>) has no fractional
  digits: a value written to it is kept rounded to the whole second, half a second and
  more going up. Instants count nanoseconds.
\<close>

definition TIMESTAMP_round :: "int \<Rightarrow> int" where
  "TIMESTAMP_round t = ((t + 500000000) div 1000000000) * 1000000000"

text \<open>
  \<open>slug_taken\<close>: some row of the table has the slug, under the collation.
  \<^verbatim>\<open>INSERT INTO urls ...\<close>: column \<open>slug\<close> is \<open>UNIQUE\<close>, so the insertion of a row whose
  slug is taken fails, as does a query that fails. The row is kept with its expiration
  as the column holds it.
\<close>

definition slug_taken :: "env \<Rightarrow> URL list \<Rightarrow> string \<Rightarrow> bool" where
  "slug_taken e tbl slug = (\<exists>r \<in> set tbl. collate e (Slug r) = collate e slug)"

definition repo_Create :: "env \<Rightarrow> URL \<Rightarrow> URL list \<Rightarrow> (error + unit) \<times> URL list" where
  "repo_Create e url tbl =
     (if db_fails e (QInsert url) \<or> slug_taken e tbl (Slug url)
      then (Inl ErrInsertingURL, tbl)
      else (Inr (), tbl @ [url\<lparr>ExpiresAt := TIMESTAMP_round (ExpiresAt url)\<rparr>]))"

text \<open>\<^verbatim>\<open>SELECT ... FROM urls WHERE slug = ? AND expires_at > NOW()\<close>; no row is \<open>nil, nil\<close>.\<close>

definition FindBySlug :: "env \<Rightarrow> int \<Rightarrow> string \<Rightarrow> URL list \<Rightarrow> error + URL option" where
  "FindBySlug e dbnow slug tbl =
     (if db_fails e (QFind slug) then Inl ErrFindingURL
      else Inr (find (\<lambda>r. collate e (Slug r) = collate e slug \<and> ExpiresAt r > dbnow) tbl))"

text \<open>\<^verbatim>\<open>SELECT EXISTS(SELECT 1 FROM urls WHERE slug = ?)\<close>\<close>

definition SlugExists :: "env \<Rightarrow> string \<Rightarrow> URL list \<Rightarrow> error + bool" where
  "SlugExists e slug tbl =
     (if db_fails e (QExists slug) then Inl ErrCheckingSlug
      else Inr (slug_taken e tbl slug))"

text \<open>
  \<^verbatim>\<open>UPDATE urls SET expires_at = NOW() WHERE slug = ? AND manage_token_hash = ? AND expires_at > NOW()\<close>;
  the result is \<open>rows > 0\<close> for the number of rows affected.
\<close>

definition expire_matches :: "env \<Rightarrow> int \<Rightarrow> string \<Rightarrow> string \<Rightarrow> URL \<Rightarrow> bool" where
  "expire_matches e dbnow slug manageTokenHash r =
     (collate e (Slug r) = collate e slug \<and>
      collate e (ManageTokenHash r) = collate e manageTokenHash \<and>
      ExpiresAt r > dbnow)"

definition ExpireBySlug :: "env \<Rightarrow> int \<Rightarrow> string \<Rightarrow> string \<Rightarrow> URL list \<Rightarrow> (error + bool) \<times> URL list" where
  "ExpireBySlug e dbnow slug manageTokenHash tbl =
     (if db_fails e (QExpire slug manageTokenHash) then (Inl ErrExpiringURL, tbl)
      else (Inr (0 < length (filter (expire_matches e dbnow slug manageTokenHash) tbl)),
            map (\<lambda>r. if expire_matches e dbnow slug manageTokenHash r
                      then r\<lparr>ExpiresAt := dbnow\<rparr> else r) tbl))"

text \<open>\<^verbatim>\<open>DELETE FROM urls WHERE expires_at < NOW()\<close>\<close>

definition DeleteExpired :: "env \<Rightarrow> int \<Rightarrow> URL list \<Rightarrow> (error + unit) \<times> URL list" where
  "DeleteExpired e dbnow tbl =
     (if db_fails e QDeleteExpired then (Inl ErrDeletingExpired, tbl)
      else (Inr (), filter (\<lambda>r. \<not> ExpiresAt r < dbnow) tbl))"

subsection \<open>The Redis cache (\<^verbatim>\<open>internal/repository/redis_cache.go\<close>)\<close>

text \<open>
  A key holds the payload and the instant at which Redis drops it (\<open>None\<close>: never). The
  JSON encoding of the payload is taken to decode to the payload that was encoded.
\<close>

type_synonym cache_store = "string \<rightharpoonup> CachedURL \<times> int option"

definition cacheKey :: "string \<Rightarrow> string" where
  "cacheKey slug = ''url:'' @ slug"

definition cache_Get :: "env \<Rightarrow> int \<Rightarrow> string \<Rightarrow> cache_store \<Rightarrow> error + CachedURL option" where
  "cache_Get e now slug c =
     (if cache_fails e (CGet slug) then Inl ErrRedisGet
      else Inr (case c (cacheKey slug) of
                  None \<Rightarrow> None
                | Some (v, None) \<Rightarrow> Some v
                | Some (v, Some deadline) \<Rightarrow> if now < deadline then Some v else None))"

text \<open>
  The client sends an expiration only for a positive \<open>ttl\<close>; both callers pass a
  positive one.
\<close>

definition cache_Set ::
  "env \<Rightarrow> int \<Rightarrow> string \<Rightarrow> CachedURL \<Rightarrow> int \<Rightarrow> cache_store \<Rightarrow> (error + unit) \<times> cache_store" where
  "cache_Set e now slug cached ttl c =
     (if cache_fails e (CSet slug) then (Inl ErrRedisSet, c)
      else (Inr (), c(cacheKey slug \<mapsto> (cached, if 0 < ttl then Some (now + ttl) else None))))"

definition cache_Delete :: "env \<Rightarrow> string \<Rightarrow> cache_store \<Rightarrow> (error + unit) \<times> cache_store" where
  "cache_Delete e slug c =
     (if cache_fails e (CDelete slug) then (Inl ErrRedisDelete, c)
      else (Inr (), c(cacheKey slug := None)))"

subsection \<open>The service (\<^verbatim>\<open>internal/service/url_service.go\<close>)\<close>

record CreateRequest =
  req_TargetURL :: string
  req_Slug :: string
  req_TTL :: TTL
  req_Password :: string

record CreateResult =
  res_Slug :: string
  res_ShortURL :: string
  res_ExpiresAt :: int
  res_Protected :: bool
  res_ManageToken :: string

record URLService =
  repo :: "URL list"
  cache :: cache_store
  baseURL :: string

subsubsection \<open>randomBase62 and generateManageToken\<close>

text \<open>
  The source of random bytes is the list of the bytes still to come. \<open>rand.Read(buf)\<close>
  takes the next \<open>len(buf)\<close> of them; a \<open>Read\<close> that finds fewer is the failing \<open>Read\<close>.
  The functions that draw random bytes return the rest of the source. The loop of the
  source goes on until enough bytes below 248 have come; on a source that runs out first
  the model ends with the failing \<open>Read\<close>, and lemma \<open>randomBase62_good\<close> below states
  that a source whose next bytes are all accepted gives the result.
\<close>

type_synonym entropy = "byte list"

definition unbiasedCeiling :: nat where
  "unbiasedCeiling = 256 - 256 mod length base62Chars"

text \<open>The inner loop \<^verbatim>\<open>for _, b := range buf\<close>, with its \<open>break\<close>.\<close>

fun randomBase62_scan :: "nat \<Rightarrow> string \<Rightarrow> byte list \<Rightarrow> string" where
  "randomBase62_scan len result [] = result"
| "randomBase62_scan len result (b # buf) =
     (if unat b < unbiasedCeiling
      then (let result' = result @ [base62Chars ! (unat b mod length base62Chars)]
            in if length result' = len then result' else randomBase62_scan len result' buf)
      else randomBase62_scan len result buf)"

text \<open>The outer loop \<^verbatim>\<open>for len(result) < length\<close>.\<close>

function randomBase62_loop :: "nat \<Rightarrow> string \<Rightarrow> entropy \<Rightarrow> error + string \<times> entropy" where
  "randomBase62_loop len result src =
     (if length result < len
      then (if length src < len then Inl ErrRandRead
            else randomBase62_loop len (randomBase62_scan len result (take len src)) (drop len src))
      else Inr (result, src))"
  by pat_completeness auto
termination
  by (relation "measure (\<lambda>(len, result, src). length src)") auto

definition randomBase62 :: "nat \<Rightarrow> entropy \<Rightarrow> error + string \<times> entropy" where
  "randomBase62 len src = randomBase62_loop len [] src"

definition generateManageToken :: "env \<Rightarrow> entropy \<Rightarrow> error + (string \<times> string) \<times> entropy" where
  "generateManageToken e src =
     (case randomBase62 manageTokenLength src of
        Inl err \<Rightarrow> Inl err
      | Inr (plain, src') \<Rightarrow>
          Inr ((plain, hex_EncodeToString (Rep_digest (sha256_Sum256 e plain))), src'))"

subsubsection \<open>suggestAlternative, generateUniqueSlug, resolveSlug\<close>

text \<open>\<open>%d\<close> of a number that is not negative.\<close>

fun itoa :: "nat \<Rightarrow> string" where
  "itoa n = (if n < 10 then [char_of (48 + n)] else itoa (n div 10) @ [char_of (48 + n mod 10)])"

text \<open>\<^verbatim>\<open>fmt.Sprintf("%s-%d", slug, i)\<close>\<close>

definition candidate :: "string \<Rightarrow> nat \<Rightarrow> string" where
  "candidate slug i = slug @ ''-'' @ itoa i"

text \<open>
  The loop \<^verbatim>\<open>for i := 2; i <= maxCollisionTries; i++\<close> from the value \<open>i\<close> of its
  counter; the empty string (without error) when every candidate is taken.
\<close>

function suggestAlternative_from :: "env \<Rightarrow> URLService \<Rightarrow> string \<Rightarrow> nat \<Rightarrow> error + string" where
  "suggestAlternative_from e s slug i =
     (if i \<le> maxCollisionTries
      then (case SlugExists e (candidate slug i) (repo s) of
              Inl err \<Rightarrow> Inl err
            | Inr exists \<Rightarrow>
                if \<not> exists then Inr (candidate slug i)
                else suggestAlternative_from e s slug (i + 1))
      else Inr [])"
  by pat_completeness auto
termination
  by (relation "measure (\<lambda>(e, s, slug, i). Suc maxCollisionTries - i)") auto

definition suggestAlternative :: "env \<Rightarrow> URLService \<Rightarrow> string \<Rightarrow> error + string" where
  "suggestAlternative e s slug = suggestAlternative_from e s slug 2"

text \<open>The loop \<^verbatim>\<open>for range maxAutoSlugTries\<close>, by the number of rounds left.\<close>

fun generateUniqueSlug_rounds :: "env \<Rightarrow> URLService \<Rightarrow> nat \<Rightarrow> entropy \<Rightarrow> error + string \<times> entropy" where
  "generateUniqueSlug_rounds e s 0 src = Inl ErrNoUniqueSlug"
| "generateUniqueSlug_rounds e s (Suc k) src =
     (case randomBase62 autoSlugLength src of
        Inl err \<Rightarrow> Inl ErrGeneratingRandomSlug
      | Inr (slug, src') \<Rightarrow>
          (case SlugExists e slug (repo s) of
             Inl err \<Rightarrow> Inl err
           | Inr exists \<Rightarrow>
               if \<not> exists then Inr (slug, src')
               else generateUniqueSlug_rounds e s k src'))"

definition generateUniqueSlug :: "env \<Rightarrow> URLService \<Rightarrow> entropy \<Rightarrow> error + string \<times> entropy" where
  "generateUniqueSlug e s src = generateUniqueSlug_rounds e s maxAutoSlugTries src"

definition resolveSlug :: "env \<Rightarrow> URLService \<Rightarrow> string \<Rightarrow> entropy \<Rightarrow> error + string \<times> entropy" where
  "resolveSlug e s requested src =
     (if requested = [] then generateUniqueSlug e s src
      else if \<not> slugPattern_MatchString requested then Inl ErrInvalidSlugFormat
      else (case SlugExists e requested (repo s) of
              Inl err \<Rightarrow> Inl err
            | Inr exists \<Rightarrow>
                if \<not> exists then Inr (requested, src)
                else (case suggestAlternative e s requested of
                        Inl err \<Rightarrow> Inl err
                      | Inr cand \<Rightarrow>
                          if cand \<noteq> [] then Inr (cand, src) else Inl ErrSlugTaken)))"

subsubsection \<open>Create\<close>

text \<open>
  The block of \<open>Create\<close> that computes \<open>passwordHash\<close>: \<open>nil\<close> for the empty password,
  the bcrypt hash otherwise.
\<close>

definition hashPassword :: "env \<Rightarrow> string \<Rightarrow> error + string option" where
  "hashPassword e password =
     (if password \<noteq> []
      then (case bcrypt_GenerateFromPassword e password of
              None \<Rightarrow> Inl ErrHashingPassword
            | Some h \<Rightarrow> Inr (Some h))
      else Inr None)"

text \<open>
  \<open>now\<close> is the reading of \<open>time.Now()\<close>; the cache is written at the same instant.
\<close>

definition Create ::
  "env \<Rightarrow> int \<Rightarrow> entropy \<Rightarrow> CreateRequest \<Rightarrow> URLService \<Rightarrow> (error + CreateResult) \<times> URLService" where
  "Create e now src req s =
     (case ValidTTLs (req_TTL req) of
        None \<Rightarrow> (Inl ErrInvalidTTL, s)
      | Some ttlDuration \<Rightarrow>
     (case resolveSlug e s (req_Slug req) src of
        Inl err \<Rightarrow> (Inl err, s)
      | Inr (slug, src1) \<Rightarrow>
     (case hashPassword e (req_Password req) of
        Inl err \<Rightarrow> (Inl err, s)
      | Inr passwordHash \<Rightarrow>
     (case generateManageToken e src1 of
        Inl err \<Rightarrow> (Inl ErrGeneratingManageToken, s)
      | Inr ((manageToken, manageTokenHash), src2) \<Rightarrow>
          (let expiresAt = now + ttlDuration;
               url = \<lparr>Slug = slug, TargetURL = req_TargetURL req, PasswordHash = passwordHash,
                      ManageTokenHash = manageTokenHash, ExpiresAt = expiresAt\<rparr>
           in (case repo_Create e url (repo s) of
                 (Inl err, tbl) \<Rightarrow> (Inl err, s\<lparr>repo := tbl\<rparr>)
               | (Inr u, tbl) \<Rightarrow>
                   (Inr \<lparr>res_Slug = slug,
                         res_ShortURL = baseURL s @ ''/'' @ slug,
                         res_ExpiresAt = expiresAt,
                         res_Protected = (passwordHash \<noteq> None),
                         res_ManageToken = manageToken\<rparr>,
                    s\<lparr>repo := tbl,
                      cache := snd (cache_Set e now slug (ToCached url) ttlDuration (cache s))\<rparr>)))))))"

subsubsection \<open>lookupCached, Resolve, VerifyPassword\<close>

text \<open>
  \<open>dbnow\<close> is the reading of \<open>NOW()\<close> by the query, \<open>now\<close> the reading of the
  service's clock by \<open>time.Until\<close>; the cache is read and written at \<open>now\<close>. An error of
  \<open>cache.Get\<close> is logged and its \<open>nil\<close> payload is a miss.
\<close>

definition lookupCached ::
  "env \<Rightarrow> int \<Rightarrow> int \<Rightarrow> string \<Rightarrow> URLService \<Rightarrow> (error + CachedURL option) \<times> URLService" where
  "lookupCached e dbnow now slug s =
     (case (case cache_Get e now slug (cache s) of Inl err \<Rightarrow> None | Inr c \<Rightarrow> c) of
        Some cached \<Rightarrow> (Inr (Some cached), s)
      | None \<Rightarrow>
          (case FindBySlug e dbnow slug (repo s) of
             Inl err \<Rightarrow> (Inl err, s)
           | Inr None \<Rightarrow> (Inr None, s)
           | Inr (Some url) \<Rightarrow>
               (let remaining = ExpiresAt url - now
                in if remaining \<le> 0 then (Inr None, s)
                   else (Inr (Some (ToCached url)),
                         s\<lparr>cache := snd (cache_Set e now slug (ToCached url) remaining (cache s))\<rparr>))))"

definition Resolve ::
  "env \<Rightarrow> int \<Rightarrow> int \<Rightarrow> string \<Rightarrow> URLService \<Rightarrow> (error + CachedURL option) \<times> URLService" where
  "Resolve e dbnow now slug s = lookupCached e dbnow now slug s"

text \<open>The empty string without error is the answer for a slug that is not found.\<close>

definition VerifyPassword ::
  "env \<Rightarrow> int \<Rightarrow> int \<Rightarrow> string \<Rightarrow> string \<Rightarrow> URLService \<Rightarrow> (error + string) \<times> URLService" where
  "VerifyPassword e dbnow now slug password s =
     (case lookupCached e dbnow now slug s of
        (Inl err, s') \<Rightarrow> (Inl err, s')
      | (Inr None, s') \<Rightarrow> (Inr [], s')
      | (Inr (Some cached), s') \<Rightarrow>
          if \<not> cached_Protected cached then (Inr (cached_TargetURL cached), s')
          else if \<not> bcrypt_CompareHashAndPassword e (cached_PasswordHash cached) password
               then (Inl ErrInvalidPassword, s')
               else (Inr (cached_TargetURL cached), s'))"

subsubsection \<open>ExpireEarly, CheckSlug\<close>

definition ExpireEarly ::
  "env \<Rightarrow> int \<Rightarrow> string \<Rightarrow> string \<Rightarrow> URLService \<Rightarrow> (error + unit) \<times> URLService" where
  "ExpireEarly e dbnow slug manageToken s =
     (let hash = hex_EncodeToString (Rep_digest (sha256_Sum256 e manageToken))
      in (case ExpireBySlug e dbnow slug hash (repo s) of
            (Inl err, tbl) \<Rightarrow> (Inl err, s\<lparr>repo := tbl\<rparr>)
          | (Inr updated, tbl) \<Rightarrow>
              if \<not> updated then (Inl ErrInvalidManageToken, s\<lparr>repo := tbl\<rparr>)
              else (Inr (), s\<lparr>repo := tbl, cache := snd (cache_Delete e slug (cache s))\<rparr>)))"

text \<open>The result is the pair \<open>(available, suggestion)\<close>.\<close>

definition CheckSlug :: "env \<Rightarrow> URLService \<Rightarrow> string \<Rightarrow> error + bool \<times> string" where
  "CheckSlug e s slug =
     (if \<not> slugPattern_MatchString slug then Inl ErrInvalidSlugFormat
      else (case SlugExists e slug (repo s) of
              Inl err \<Rightarrow> Inl err
            | Inr exists \<Rightarrow>
                if \<not> exists then Inr (True, [])
                else (case suggestAlternative e s slug of
                        Inl err \<Rightarrow> Inl err
                      | Inr suggestion \<Rightarrow> Inr (False, suggestion))))"

subsubsection \<open>RunCleanup\<close>

text \<open>
  One round of the loop of \<open>RunCleanup\<close>: the ticker fires at \<open>dbnow\<close> and
  \<open>repo.DeleteExpired\<close> runs; its error is only logged.
\<close>

definition RunCleanup_tick :: "env \<Rightarrow> int \<Rightarrow> URLService \<Rightarrow> URLService" where
  "RunCleanup_tick e dbnow s = s\<lparr>repo := snd (DeleteExpired e dbnow (repo s))\<rparr>"

subsection \<open>The slug format in the words of the specification\<close>

text \<open>
  "5 to 50 characters drawn only from ASCII letters, digits, and hyphen": the reference
  against which the pattern of the source is compared.
\<close>

definition slug_alphabet :: "char set" where
  "slug_alphabet =
     set (''abcdefghijklmnopqrstuvwxyz'' @ ''ABCDEFGHIJKLMNOPQRSTUVWXYZ'' @ ''0123456789'' @ ''-'')"

definition spec_slug_format :: "string \<Rightarrow> bool" where
  "spec_slug_format s = (5 \<le> length s \<and> length s \<le> 50 \<and> set s \<subseteq> slug_alphabet)"

subsection \<open>Auxiliary definitions for the statements\<close>

text \<open>The row that \<open>Create\<close> inserts, by its fields.\<close>

definition new_url :: "CreateRequest \<Rightarrow> string \<Rightarrow> string option \<Rightarrow> string \<Rightarrow> int \<Rightarrow> URL" where
  "new_url req slug ph h t =
     \<lparr>Slug = slug, TargetURL = req_TargetURL req, PasswordHash = ph,
      ManageTokenHash = h, ExpiresAt = t\<rparr>"

text \<open>
  What the durable store alone answers to a lookup: the row found by \<open>FindBySlug\<close>,
  projected, unless the service's clock has reached its expiration.
\<close>

definition store_lookup :: "env \<Rightarrow> int \<Rightarrow> int \<Rightarrow> string \<Rightarrow> URL list \<Rightarrow> error + CachedURL option" where
  "store_lookup e dbnow now slug tbl =
     (case FindBySlug e dbnow slug tbl of
        Inl err \<Rightarrow> Inl err
      | Inr None \<Rightarrow> Inr None
      | Inr (Some url) \<Rightarrow> if ExpiresAt url \<le> now then Inr None else Inr (Some (ToCached url)))"

text \<open>
  The durations of the specification, "1 hour, 1 day, 1 week, 30 days, 365 days", in
  nanoseconds.
\<close>

definition spec_ttl_table :: "(string \<times> int) list" where
  "spec_ttl_table =
     [(''1h'', 3600 * 1000000000),
      (''24h'', 86400 * 1000000000),
      (''168h'', 604800 * 1000000000),
      (''720h'', 2592000 * 1000000000),
      (''8760h'', 31536000 * 1000000000)]"

subsection \<open>A concrete environment and concrete inputs\<close>

text \<open>
  For the instances below: a collation that folds the case of ASCII letters, servers that
  never fail, a stand-in for SHA-256 that pads or cuts the bytes of its input to 32, and a
  stand-in for bcrypt whose hash is the password behind a fixed prefix.
\<close>

definition fold_char :: "char \<Rightarrow> char" where
  "fold_char c =
     (case map_of (zip ''ABCDEFGHIJKLMNOPQRSTUVWXYZ'' ''abcdefghijklmnopqrstuvwxyz'') c of
        None \<Rightarrow> c
      | Some l \<Rightarrow> l)"

definition fold_case :: "string \<Rightarrow> string" where
  "fold_case s = map fold_char s"

definition toy_Sum256 :: "string \<Rightarrow> digest" where
  "toy_Sum256 s = Abs_digest (take 32 (map of_char s @ replicate 32 0))"

definition demo_env :: env where
  "demo_env =
     \<lparr>collate = fold_case,
      db_fails = (\<lambda>q. False),
      cache_fails = (\<lambda>op. False),
      sha256_Sum256 = toy_Sum256,
      bcrypt_GenerateFromPassword = (\<lambda>p. Some (''$2a$10$'' @ p)),
      bcrypt_CompareHashAndPassword = (\<lambda>h p. h = ''$2a$10$'' @ p)\<rparr>"

text \<open>The same environment with a cache that is down.\<close>

definition cache_down_env :: env where
  "cache_down_env = demo_env\<lparr>cache_fails := (\<lambda>op. True)\<rparr>"

text \<open>The same environment with a cache that answers reads and refuses writes.\<close>

definition set_down_env :: env where
  "set_down_env = demo_env\<lparr>cache_fails := (\<lambda>op. case op of CSet k \<Rightarrow> True | _ \<Rightarrow> False)\<rparr>"

text \<open>Thirty-two random bytes and the token \<open>randomBase62\<close> makes of them.\<close>

definition token_bytes :: entropy where
  "token_bytes =
     [10, 11, 12, 13, 14, 15, 16, 17, 18, 19, 20, 21, 22, 23, 24, 25,
      26, 27, 28, 29, 30, 31, 32, 33, 34, 35, 36, 37, 38, 39, 40, 41]"

definition demo_token :: string where
  "demo_token = ''ABCDEFGHIJKLMNOPQRSTUVWXYZabcdef''"

definition demo_token_hash :: string where
  "demo_token_hash = hex_EncodeToString (Rep_digest (toy_Sum256 demo_token))"

text \<open>
  Sixteen random bytes for a slug: the first is rejected (\<open>250 \<ge> 248\<close>), so the first
  \<open>Read\<close> yields seven characters and the second \<open>Read\<close> the eighth.
\<close>

definition slug_bytes :: entropy where
  "slug_bytes = [250, 0, 1, 2, 3, 4, 5, 6, 7, 0, 0, 0, 0, 0, 0, 0]"

definition demo_row :: "string \<Rightarrow> string option \<Rightarrow> int \<Rightarrow> URL" where
  "demo_row slug ph t =
     \<lparr>Slug = slug, TargetURL = ''https://example.com'', PasswordHash = ph,
      ManageTokenHash = demo_token_hash, ExpiresAt = t\<rparr>"

definition demo_service :: "URL list \<Rightarrow> URLService" where
  "demo_service tbl = \<lparr>repo = tbl, cache = Map.empty, baseURL = ''https://sho.rt''\<rparr>"

definition demo_request :: "string \<Rightarrow> TTL \<Rightarrow> string \<Rightarrow> CreateRequest" where
  "demo_request slug ttl password =
     \<lparr>req_TargetURL = ''https://example.com'', req_Slug = slug, req_TTL = ttl,
      req_Password = password\<rparr>"

definition demo_cached :: CachedURL where
  "demo_cached =
     \<lparr>cached_TargetURL = ''https://example.com'', cached_Protected = False,
      cached_PasswordHash = []\<rparr>"

text \<open>A valid slug of 50 characters.\<close>

definition slug50 :: string where
  "slug50 = replicate 50 CHR ''a''"

text \<open>
  A run of the service: link \<open>hello\<close> is created at instant 0 for one hour, which also
  writes the cache; at instant 10 it is expired early while the cache is down, so that
  the invalidation fails (and is only logged).
\<close>

definition created_state :: URLService where
  "created_state =
     snd (Create demo_env 0 token_bytes (demo_request ''hello'' ''1h'' []) (demo_service []))"

definition stale_state :: URLService where
  "stale_state = snd (ExpireEarly cache_down_env 10 ''hello'' demo_token created_state)"



text \<open>
  A second run, instants in nanoseconds. At 0 link \<open>hello\<close> is created for a day with
  password \<open>old\<close>, which writes the cache. At 10 s it is expired early while the cache is
  down (the invalidation fails and is logged). At 20 s the cleanup deletes the expired row.
  At 30 s, the cache still down, \<open>hello\<close> is created again with password \<open>new\<close> (the
  cache write fails and is logged).
\<close>

definition first_link_state :: URLService where
  "first_link_state =
     snd (Create demo_env 0 token_bytes (demo_request ''hello'' ''24h'' ''old'') (demo_service []))"

definition expired_link_state :: URLService where
  "expired_link_state =
     snd (ExpireEarly cache_down_env 10000000000 ''hello'' demo_token first_link_state)"

definition swept_state :: URLService where
  "swept_state = RunCleanup_tick demo_env 20000000000 expired_link_state"

definition second_link_state :: URLService where
  "second_link_state =
     snd (Create cache_down_env 30000000000 token_bytes (demo_request ''hello'' ''24h'' ''new'')
            swept_state)"

text \<open>The cache payload of the first link and the row of the second.\<close>

definition old_cached :: CachedURL where
  "old_cached =
     \<lparr>cached_TargetURL = ''https://example.com'', cached_Protected = True,
      cached_PasswordHash = ''$2a$10$old''\<rparr>"

definition second_link_row :: URL where
  "second_link_row = demo_row ''hello'' (Some ''$2a$10$new'') 86430000000000"

declare suggestAlternative_from.simps [simp del]
declare randomBase62_loop.simps [simp del]
declare itoa.simps [simp del]

section \<open>The slug pattern\<close>

lemma match_repeat_iff:
  "match_repeat cls lo hi s \<longleftrightarrow> lo \<le> length s \<and> length s \<le> hi \<and> list_all (in_ranges cls) s"
  by (induction s arbitrary: lo hi) auto

lemma char_range_iff:
  assumes "b < 256"
  shows "(a \<le> (of_char c :: nat) \<and> (of_char c :: nat) \<le> b) \<longleftrightarrow> c \<in> set (map char_of [a..<Suc b])"
proof
  assume h: "a \<le> (of_char c :: nat) \<and> (of_char c :: nat) \<le> b"
  then have "(of_char c :: nat) \<in> set [a..<Suc b]" by auto
  then have "char_of (of_char c :: nat) \<in> char_of ` set [a..<Suc b]" by (rule imageI)
  then show "c \<in> set (map char_of [a..<Suc b])" by simp
next
  assume "c \<in> set (map char_of [a..<Suc b])"
  then obtain n where n: "c = char_of n" "a \<le> n" "n \<le> b" by auto
  with assms have "(of_char c :: nat) = n" by (simp add: of_char_of)
  with n show "a \<le> (of_char c :: nat) \<and> (of_char c :: nat) \<le> b" by simp
qed

lemma lower_range: "map char_of [97..<Suc 122] = ''abcdefghijklmnopqrstuvwxyz''"
  by code_simp

lemma upper_range: "map char_of [65..<Suc 90] = ''ABCDEFGHIJKLMNOPQRSTUVWXYZ''"
  by code_simp

lemma digit_range: "map char_of [48..<Suc 57] = ''0123456789''"
  by code_simp

lemma hyphen_range: "map (char_of :: nat \<Rightarrow> char) [45..<Suc 45] = ''-''"
  by code_simp

lemma in_slug_class_iff: "in_ranges slug_class c \<longleftrightarrow> c \<in> slug_alphabet"
proof -
  have "in_ranges slug_class c \<longleftrightarrow>
      (97 \<le> (of_char c :: nat) \<and> (of_char c :: nat) \<le> 122) \<or>
      (65 \<le> (of_char c :: nat) \<and> (of_char c :: nat) \<le> 90) \<or>
      (48 \<le> (of_char c :: nat) \<and> (of_char c :: nat) \<le> 57) \<or>
      (45 \<le> (of_char c :: nat) \<and> (of_char c :: nat) \<le> 45)"
    by (simp add: slug_class_def)
  also have "\<dots> \<longleftrightarrow> c \<in> set (map char_of [97..<Suc 122]) \<or> c \<in> set (map char_of [65..<Suc 90])
      \<or> c \<in> set (map char_of [48..<Suc 57]) \<or> c \<in> set (map char_of [45..<Suc 45])"
    by (simp only: char_range_iff [of 122 97 c] char_range_iff [of 90 65 c]
        char_range_iff [of 57 48 c] char_range_iff [of 45 45 c])
  also have "\<dots> \<longleftrightarrow> c \<in> slug_alphabet"
    unfolding lower_range upper_range digit_range hyphen_range slug_alphabet_def
    by (simp only: set_append Un_iff disj_assoc)
  finally show ?thesis .
qed

lemma slugPattern_iff:
  "slugPattern_MatchString s \<longleftrightarrow> 5 \<le> length s \<and> length s \<le> 50 \<and> set s \<subseteq> slug_alphabet"
  by (auto simp: slugPattern_MatchString_def match_repeat_iff
      slugMinLength_def slugMaxLength_def list_all_iff in_slug_class_iff)

text \<open>
  Claim C9. The slug format validator accepts a string if and only if it has 5 to 50
  characters, each an ASCII letter, a digit or a hyphen; every other string (too short,
  too long, or with any other character) is rejected.
\<close>

theorem slugPattern_accepts_exactly:
  "slugPattern_MatchString s \<longleftrightarrow> spec_slug_format s"
proof -
  have "slugPattern_MatchString s \<longleftrightarrow>
      slugMinLength \<le> length s \<and> length s \<le> slugMaxLength \<and> list_all (in_ranges slug_class) s"
    by (simp add: slugPattern_MatchString_def match_repeat_iff)
  also have "\<dots> \<longleftrightarrow> 5 \<le> length s \<and> length s \<le> 50 \<and> (\<forall>c \<in> set s. c \<in> slug_alphabet)"
    by (simp add: slugMinLength_def slugMaxLength_def list_all_iff in_slug_class_iff)
  also have "\<dots> \<longleftrightarrow> spec_slug_format s"
    by (auto simp: spec_slug_format_def)
  finally show ?thesis .
qed

theorem slugPattern_accepts_exactly_witness:
  "slugPattern_MatchString ''hello'' \<and> spec_slug_format ''hello'' \<and>
   \<not> slugPattern_MatchString ''abcd'' \<and> \<not> spec_slug_format ''abcd'' \<and>
   \<not> slugPattern_MatchString ''hel_lo'' \<and> \<not> spec_slug_format ''hel_lo'' \<and>
   \<not> slugPattern_MatchString (replicate 51 CHR ''a'') \<and> \<not> spec_slug_format (replicate 51 CHR ''a'')"
  using slugPattern_accepts_exactly [of "''hello''"] slugPattern_accepts_exactly [of "''abcd''"]
    slugPattern_accepts_exactly [of "''hel_lo''"]
    slugPattern_accepts_exactly [of "replicate 51 CHR ''a''"]
  by (simp add: spec_slug_format_def slug_alphabet_def)

section \<open>Probing for a free suffixed slug\<close>

lemma SlugExists_Inr: "SlugExists e slug tbl = Inr b \<longleftrightarrow> \<not> db_fails e (QExists slug) \<and> b = slug_taken e tbl slug"
  by (auto simp: SlugExists_def)

lemma candidate_not_empty: "candidate slug i \<noteq> []"
  by (simp add: candidate_def)

lemma suggestAlternative_from_found:
  assumes "i \<le> N" "N \<le> maxCollisionTries"
    and "SlugExists e (candidate slug N) (repo s) = Inr False"
    and "\<forall>M. i \<le> M \<and> M < N \<longrightarrow> SlugExists e (candidate slug M) (repo s) = Inr True"
  shows "suggestAlternative_from e s slug i = Inr (candidate slug N)"
  using assms
proof (induction "N - i" arbitrary: i)
  case 0
  then have "i = N" by simp
  with 0 show ?case by (simp add: suggestAlternative_from.simps [of e s slug N])
next
  case (Suc k)
  then have lt: "i < N" by simp
  with Suc.prems have ex: "SlugExists e (candidate slug i) (repo s) = Inr True" by simp
  have "suggestAlternative_from e s slug (i + 1) = Inr (candidate slug N)"
    using Suc.hyps Suc.prems lt by (intro Suc.hyps(1)) auto
  with ex lt Suc.prems(2) show ?case
    by (simp add: suggestAlternative_from.simps [of e s slug i])
qed



lemma suggestAlternative_from_empty:
  assumes "suggestAlternative_from e s slug i = Inr []"
  shows "\<forall>M. i \<le> M \<and> M \<le> maxCollisionTries \<longrightarrow> SlugExists e (candidate slug M) (repo s) = Inr True"
  using assms
proof (induction e s slug i rule: suggestAlternative_from.induct)
  case (1 e s slug i)
  note unf = suggestAlternative_from.simps [of e s slug i]
  show ?case
  proof (cases "i \<le> maxCollisionTries")
    case False
    show ?thesis
    proof (intro allI impI)
      fix M assume "i \<le> M \<and> M \<le> maxCollisionTries"
      with False have False by arith
      then show "SlugExists e (candidate slug M) (repo s) = Inr True" ..
    qed
  next
    case True
    show ?thesis
    proof (cases "SlugExists e (candidate slug i) (repo s)")
      case (Inl err)
      with True "1.prems" show ?thesis by (simp add: unf)
    next
      case (Inr ex)
      show ?thesis
      proof (cases ex)
        case False
        with True Inr "1.prems" have "candidate slug i = []" by (simp add: unf)
        with candidate_not_empty [of slug i] show ?thesis by simp
      next
        case True2: True
        with True Inr "1.prems" have rec: "suggestAlternative_from e s slug (i + 1) = Inr []"
          by (simp add: unf)
        have "\<not> \<not> ex" using True2 by simp
        from "1.IH" [OF True Inr this rec]
        have ih: "\<forall>M. i + 1 \<le> M \<and> M \<le> maxCollisionTries \<longrightarrow> SlugExists e (candidate slug M) (repo s) = Inr True" .
        show ?thesis
        proof (intro allI impI)
          fix M assume M: "i \<le> M \<and> M \<le> maxCollisionTries"
          show "SlugExists e (candidate slug M) (repo s) = Inr True"
          proof (cases "M = i")
            case True
            with Inr True2 show ?thesis by simp
          next
            case False
            with M have "i + 1 \<le> M \<and> M \<le> maxCollisionTries" by simp
            with ih show ?thesis by blast
          qed
        qed
      qed
    qed
  qed
qed

section \<open>Create, step by step\<close>

lemma slugPattern_nonempty: "slugPattern_MatchString slug \<Longrightarrow> slug \<noteq> []"
  by (auto simp: slugPattern_iff)

lemma resolveSlug_taken:
  assumes "slugPattern_MatchString slug" and "SlugExists e slug (repo s) = Inr True"
  shows "resolveSlug e s slug src =
     (case suggestAlternative e s slug of
        Inl err \<Rightarrow> Inl err
      | Inr c \<Rightarrow> if c \<noteq> [] then Inr (c, src) else Inl ErrSlugTaken)"
  using assms slugPattern_nonempty [OF assms(1)] by (simp add: resolveSlug_def)

lemma CheckSlug_taken:
  assumes "slugPattern_MatchString slug" and "SlugExists e slug (repo s) = Inr True"
  shows "CheckSlug e s slug =
     (case suggestAlternative e s slug of
        Inl err \<Rightarrow> Inl err
      | Inr c \<Rightarrow> Inr (False, c))"
  using assms by (simp add: CheckSlug_def)

lemma Create_success:
  assumes "ValidTTLs (req_TTL req) = Some d"
    and "resolveSlug e s (req_Slug req) src = Inr (slug, src1)"
    and "hashPassword e (req_Password req) = Inr ph"
    and "generateManageToken e src1 = Inr ((tok, h), src2)"
    and "\<not> db_fails e (QInsert (new_url req slug ph h (now + d)))"
    and "\<not> slug_taken e (repo s) slug"
  shows "Create e now src req s =
     (Inr \<lparr>res_Slug = slug, res_ShortURL = baseURL s @ ''/'' @ slug, res_ExpiresAt = now + d,
           res_Protected = (ph \<noteq> None), res_ManageToken = tok\<rparr>,
      s\<lparr>repo := repo s @ [new_url req slug ph h (TIMESTAMP_round (now + d))],
        cache := snd (cache_Set e now slug (ToCached (new_url req slug ph h (now + d))) d (cache s))\<rparr>)"
  using assms by (simp add: Create_def repo_Create_def new_url_def Let_def)

lemma Create_InrD:
  assumes "fst (Create e now src req s) = Inr res"
  shows "\<exists>d slug src1 ph tok h src2.
      ValidTTLs (req_TTL req) = Some d \<and>
      resolveSlug e s (req_Slug req) src = Inr (slug, src1) \<and>
      hashPassword e (req_Password req) = Inr ph \<and>
      generateManageToken e src1 = Inr ((tok, h), src2) \<and>
      \<not> db_fails e (QInsert (new_url req slug ph h (now + d))) \<and>
      \<not> slug_taken e (repo s) slug"
proof (cases "ValidTTLs (req_TTL req)")
  case None
  with assms show ?thesis by (simp add: Create_def)
next
  case (Some d)
  show ?thesis
  proof (cases "resolveSlug e s (req_Slug req) src")
    case (Inl err)
    with Some assms show ?thesis by (simp add: Create_def)
  next
    case (Inr p)
    obtain slug src1 where p: "p = (slug, src1)" by (cases p)
    show ?thesis
    proof (cases "hashPassword e (req_Password req)")
      case Inl2: (Inl err)
      with Some Inr p assms show ?thesis by (simp add: Create_def)
    next
      case Inr2: (Inr ph)
      show ?thesis
      proof (cases "generateManageToken e src1")
        case Inl3: (Inl err)
        with Some Inr p Inr2 assms show ?thesis by (simp add: Create_def)
      next
        case Inr3: (Inr q)
        obtain tok h src2 where q: "q = ((tok, h), src2)" by (cases q) auto
        have ins: "\<not> db_fails e (QInsert (new_url req slug ph h (now + d))) \<and>
            \<not> slug_taken e (repo s) slug"
          using Some Inr p Inr2 Inr3 q assms
          by (simp add: Create_def repo_Create_def new_url_def Let_def split: if_splits)
        with Some Inr p Inr2 Inr3 q show ?thesis by blast
      qed
    qed
  qed
qed

lemma Create_InrE:
  assumes "fst (Create e now src req s) = Inr res"
  obtains d slug src1 ph tok h src2 where
      "ValidTTLs (req_TTL req) = Some d"
      "resolveSlug e s (req_Slug req) src = Inr (slug, src1)"
      "hashPassword e (req_Password req) = Inr ph"
      "generateManageToken e src1 = Inr ((tok, h), src2)"
      "res = \<lparr>res_Slug = slug, res_ShortURL = baseURL s @ ''/'' @ slug, res_ExpiresAt = now + d,
           res_Protected = (ph \<noteq> None), res_ManageToken = tok\<rparr>"
      "snd (Create e now src req s) =
         s\<lparr>repo := repo s @ [new_url req slug ph h (TIMESTAMP_round (now + d))],
           cache := snd (cache_Set e now slug (ToCached (new_url req slug ph h (now + d))) d (cache s))\<rparr>"
proof -
  from Create_InrD [OF assms] obtain d slug src1 ph tok h src2 where
      a: "ValidTTLs (req_TTL req) = Some d"
      "resolveSlug e s (req_Slug req) src = Inr (slug, src1)"
      "hashPassword e (req_Password req) = Inr ph"
      "generateManageToken e src1 = Inr ((tok, h), src2)"
      "\<not> db_fails e (QInsert (new_url req slug ph h (now + d)))"
      "\<not> slug_taken e (repo s) slug"
    by blast
  note eq = Create_success [OF a]
  from eq assms have "res = \<lparr>res_Slug = slug, res_ShortURL = baseURL s @ ''/'' @ slug,
      res_ExpiresAt = now + d, res_Protected = (ph \<noteq> None), res_ManageToken = tok\<rparr>"
    by simp
  moreover from eq have "snd (Create e now src req s) =
         s\<lparr>repo := repo s @ [new_url req slug ph h (TIMESTAMP_round (now + d))],
           cache := snd (cache_Set e now slug (ToCached (new_url req slug ph h (now + d))) d (cache s))\<rparr>"
    by simp
  ultimately show thesis using a that by blast
qed




lemma resolveSlug_taken_Inr:
  assumes "slugPattern_MatchString slug" and "SlugExists e slug (repo s) = Inr True"
    and "resolveSlug e s slug src = Inr (c, src1)"
  shows "suggestAlternative e s slug = Inr c \<and> c \<noteq> [] \<and> src1 = src"
  using assms(3) unfolding resolveSlug_taken [OF assms(1,2)]
  by (cases "suggestAlternative e s slug") (auto split: if_splits)

section \<open>The concrete environment, evaluated\<close>

lemma Rep_toy_Sum256: "Rep_digest (toy_Sum256 s) = take 32 (map of_char s @ replicate 32 0)"
  by (simp add: toy_Sum256_def Abs_digest_inverse)

lemma unbiasedCeiling_248: "unbiasedCeiling = 248"
  by (simp add: unbiasedCeiling_def base62Chars_def)

lemma length_base62Chars: "length base62Chars = 62"
  by (simp add: base62Chars_def)

lemma randomBase62_token_bytes: "randomBase62 32 token_bytes = Inr (demo_token, [])"
  by (simp add: randomBase62_def randomBase62_loop.simps token_bytes_def demo_token_def
      unbiasedCeiling_248 length_base62Chars base62Chars_def)

lemma randomBase62_slug_bytes:
  "randomBase62 8 (slug_bytes @ token_bytes) = Inr (''01234567'', token_bytes)"
  by (simp add: randomBase62_def randomBase62_loop.simps slug_bytes_def token_bytes_def
      unbiasedCeiling_248 length_base62Chars base62Chars_def)

lemma demo_generateManageToken:
  "generateManageToken demo_env token_bytes = Inr ((demo_token, demo_token_hash), [])"
  by (simp add: generateManageToken_def manageTokenLength_def randomBase62_token_bytes
      demo_env_def demo_token_hash_def)

lemma ValidTTLs_1h: "ValidTTLs ''1h'' = Some 3600000000000"
  by (simp add: ValidTTLs_def TTL1Hour_def TTL1Day_def TTL1Week_def TTL1Month_def TTL1Year_def Hour_def)

lemma TIMESTAMP_round_hour: "TIMESTAMP_round 3600000000000 = 3600000000000"
  by (simp add: TIMESTAMP_round_def)

lemma hashPassword_empty: "hashPassword e [] = Inr None"
  by (simp add: hashPassword_def)

lemma itoa_2: "itoa 2 = ''2''"
  by code_simp

lemma candidate_2: "candidate slug 2 = slug @ ''-2''"
  by (simp add: candidate_def itoa_2)

lemma demo_env_simps:
  "collate demo_env = fold_case" "db_fails demo_env q = False" "cache_fails demo_env op = False"
  "sha256_Sum256 demo_env = toy_Sum256"
  by (simp_all add: demo_env_def)


lemma no_M: "\<forall>M::nat. 2 \<le> M \<and> M < 2 \<longrightarrow> P M"
  by (intro allI impI) arith

lemma fold_case_length_neq: "length a \<noteq> length b \<Longrightarrow> fold_case a \<noteq> fold_case b"
  unfolding fold_case_def by (metis length_map)

lemma slug50_valid: "slugPattern_MatchString slug50"
  by (simp add: slugPattern_iff slug50_def slug_alphabet_def)

lemma slug50_taken: "SlugExists demo_env slug50 (repo (demo_service [demo_row slug50 None 100])) = Inr True"
  by (simp add: SlugExists_def slug_taken_def demo_env_simps demo_service_def demo_row_def)

lemma slug50_2_free:
  "SlugExists demo_env (candidate slug50 2) (repo (demo_service [demo_row slug50 None 100])) = Inr False"
  by (simp add: SlugExists_def slug_taken_def demo_env_simps demo_service_def demo_row_def
      candidate_2 fold_case_length_neq)

lemma slug50_suggest:
  "suggestAlternative demo_env (demo_service [demo_row slug50 None 100]) slug50 = Inr (candidate slug50 2)"
  unfolding suggestAlternative_def
  by (rule suggestAlternative_from_found [OF _ _ slug50_2_free no_M]) (simp_all add: maxCollisionTries_def)


lemma slug50_Create:
  "Create demo_env 0 token_bytes (demo_request slug50 ''1h'' []) (demo_service [demo_row slug50 None 100]) =
     (Inr \<lparr>res_Slug = candidate slug50 2,
           res_ShortURL = baseURL (demo_service [demo_row slug50 None 100]) @ ''/'' @ candidate slug50 2,
           res_ExpiresAt = 0 + 3600000000000,
           res_Protected = (None \<noteq> (None :: string option)), res_ManageToken = demo_token\<rparr>,
      (demo_service [demo_row slug50 None 100])
        \<lparr>repo := repo (demo_service [demo_row slug50 None 100]) @
             [new_url (demo_request slug50 ''1h'' []) (candidate slug50 2) None demo_token_hash (TIMESTAMP_round (0 + 3600000000000))],
         cache := snd (cache_Set demo_env 0 (candidate slug50 2)
             (ToCached (new_url (demo_request slug50 ''1h'' []) (candidate slug50 2) None demo_token_hash (0 + 3600000000000)))
             3600000000000 (cache (demo_service [demo_row slug50 None 100])))\<rparr>)"
proof (rule Create_success)
  show "ValidTTLs (req_TTL (demo_request slug50 ''1h'' [])) = Some 3600000000000"
    by (simp add: demo_request_def ValidTTLs_1h)
  show "resolveSlug demo_env (demo_service [demo_row slug50 None 100])
      (req_Slug (demo_request slug50 ''1h'' [])) token_bytes = Inr (candidate slug50 2, token_bytes)"
    by (simp add: demo_request_def resolveSlug_taken [OF slug50_valid slug50_taken] slug50_suggest
        candidate_not_empty)
  show "hashPassword demo_env (req_Password (demo_request slug50 ''1h'' [])) = Inr None"
    by (simp add: demo_request_def hashPassword_empty)
  show "generateManageToken demo_env token_bytes = Inr ((demo_token, demo_token_hash), [])"
    by (rule demo_generateManageToken)
  show "\<not> db_fails demo_env (QInsert (new_url (demo_request slug50 ''1h'' []) (candidate slug50 2)
      None demo_token_hash (0 + 3600000000000)))"
    by (simp add: demo_env_simps)
  show "\<not> slug_taken demo_env (repo (demo_service [demo_row slug50 None 100])) (candidate slug50 2)"
    using slug50_2_free by (simp add: SlugExists_Inr)
qed




lemma hello_valid: "slugPattern_MatchString ''hello''"
  by (simp add: slugPattern_iff slug_alphabet_def)

section \<open>Slug collisions\<close>



text \<open>
  Claim C5. For a valid slug that is taken, the suggestion of \<open>CheckSlug\<close> is the slug
  that \<open>Create\<close> assigns as its suffixed fallback in the same state: both come from
  \<open>suggestAlternative\<close>. Where \<open>CheckSlug\<close> has no suggestion \<open>Create\<close> reports the
  conflict, and an error of the probing is the error of both.
\<close>

theorem CheckSlug_suggestion_is_Create_fallback:
  assumes valid: "slugPattern_MatchString (req_Slug req)"
    and taken: "SlugExists e (req_Slug req) (repo s) = Inr True"
  shows "(fst (Create e now src req s) = Inr res \<longrightarrow>
            CheckSlug e s (req_Slug req) = Inr (False, res_Slug res)) \<and>
         (CheckSlug e s (req_Slug req) = Inr (a, sug) \<and> sug \<noteq> [] \<longrightarrow>
            resolveSlug e s (req_Slug req) src = Inr (sug, src)) \<and>
         (CheckSlug e s (req_Slug req) = Inr (a, []) \<longrightarrow>
            resolveSlug e s (req_Slug req) src = Inl ErrSlugTaken) \<and>
         (CheckSlug e s (req_Slug req) = Inl err \<longrightarrow>
            resolveSlug e s (req_Slug req) src = Inl err)"
proof (intro conjI impI)
  assume ok: "fst (Create e now src req s) = Inr res"
  from ok obtain d' slug src1 ph' tok' h' src2' where
      "ValidTTLs (req_TTL req) = Some d'"
      and r: "resolveSlug e s (req_Slug req) src = Inr (slug, src1)"
      and "hashPassword e (req_Password req) = Inr ph'"
      and "generateManageToken e src1 = Inr ((tok', h'), src2')"
      and res: "res = \<lparr>res_Slug = slug, res_ShortURL = baseURL s @ ''/'' @ slug,
          res_ExpiresAt = now + d', res_Protected = (ph' \<noteq> None), res_ManageToken = tok'\<rparr>"
      and "snd (Create e now src req s) =
         s\<lparr>repo := repo s @ [new_url req slug ph' h' (TIMESTAMP_round (now + d'))],
           cache := snd (cache_Set e now slug (ToCached (new_url req slug ph' h' (now + d'))) d' (cache s))\<rparr>"
    by (rule Create_InrE)
  from resolveSlug_taken_Inr [OF valid taken r]
  have "suggestAlternative e s (req_Slug req) = Inr slug" by simp
  with res show "CheckSlug e s (req_Slug req) = Inr (False, res_Slug res)"
    by (simp add: CheckSlug_taken [OF valid taken])
next
  assume "CheckSlug e s (req_Slug req) = Inr (a, sug) \<and> sug \<noteq> []"
  then show "resolveSlug e s (req_Slug req) src = Inr (sug, src)"
    unfolding CheckSlug_taken [OF valid taken] resolveSlug_taken [OF valid taken]
    by (cases "suggestAlternative e s (req_Slug req)") auto
next
  assume "CheckSlug e s (req_Slug req) = Inr (a, [])"
  then show "resolveSlug e s (req_Slug req) src = Inl ErrSlugTaken"
    unfolding CheckSlug_taken [OF valid taken] resolveSlug_taken [OF valid taken]
    by (cases "suggestAlternative e s (req_Slug req)") auto
next
  assume "CheckSlug e s (req_Slug req) = Inl err"
  then show "resolveSlug e s (req_Slug req) src = Inl err"
    unfolding CheckSlug_taken [OF valid taken] resolveSlug_taken [OF valid taken]
    by (cases "suggestAlternative e s (req_Slug req)") auto
qed

theorem CheckSlug_suggestion_is_Create_fallback_witness:
  "slugPattern_MatchString slug50 \<and>
   SlugExists demo_env slug50 (repo (demo_service [demo_row slug50 None 100])) = Inr True \<and>
   res_Slug (projr (fst (Create demo_env 0 token_bytes (demo_request slug50 ''1h'' [])
       (demo_service [demo_row slug50 None 100])))) = slug50 @ ''-2'' \<and>
   CheckSlug demo_env (demo_service [demo_row slug50 None 100]) slug50 = Inr (False, slug50 @ ''-2'') \<and>
   resolveSlug demo_env (demo_service [demo_row slug50 None 100]) slug50 token_bytes =
     Inr (slug50 @ ''-2'', token_bytes)"
proof -
  let ?s = "demo_service [demo_row slug50 None 100]"
  let ?req = "demo_request slug50 ''1h'' []"
  let ?res = "\<lparr>res_Slug = candidate slug50 2,
           res_ShortURL = baseURL ?s @ ''/'' @ candidate slug50 2,
           res_ExpiresAt = 0 + 3600000000000,
           res_Protected = (None \<noteq> (None :: string option)), res_ManageToken = demo_token\<rparr>"
  have v: "slugPattern_MatchString (req_Slug ?req)" using slug50_valid by (simp add: demo_request_def)
  have t: "SlugExists demo_env (req_Slug ?req) (repo ?s) = Inr True"
    using slug50_taken by (simp add: demo_request_def)
  have c: "fst (Create demo_env 0 token_bytes ?req ?s) = Inr ?res"
    by (simp add: slug50_Create)
  note inst = CheckSlug_suggestion_is_Create_fallback [OF v t, of 0 token_bytes "?res" False
      "slug50 @ ''-2''"]
  from inst c have chk: "CheckSlug demo_env ?s (req_Slug ?req) = Inr (False, res_Slug ?res)"
    by blast
  then have chk': "CheckSlug demo_env ?s (req_Slug ?req) = Inr (False, slug50 @ ''-2'') \<and> slug50 @ ''-2'' \<noteq> []"
    by (simp add: candidate_2)
  with inst have "resolveSlug demo_env ?s (req_Slug ?req) token_bytes = Inr (slug50 @ ''-2'', token_bytes)"
    by blast
  with chk' c v t show ?thesis by (simp add: demo_request_def candidate_2)
qed



lemma ValidTTLs_spec: "ValidTTLs = map_of spec_ttl_table"
  by (rule ext)
    (simp add: ValidTTLs_def spec_ttl_table_def TTL1Hour_def TTL1Day_def TTL1Week_def TTL1Month_def
      TTL1Year_def Hour_def)

lemma ValidTTLs_None_iff:
  "ValidTTLs ttl = None \<longleftrightarrow> ttl \<notin> {''1h'', ''24h'', ''168h'', ''720h'', ''8760h''}"
  by (simp add: ValidTTLs_def TTL1Hour_def TTL1Day_def TTL1Week_def TTL1Month_def TTL1Year_def)

section \<open>Expiration by TTL\<close>

lemma hello_free_resolve:
  "resolveSlug demo_env (demo_service []) ''hello'' src = Inr (''hello'', src)"
  using hello_valid
  by (simp add: resolveSlug_def SlugExists_def slug_taken_def demo_env_simps demo_service_def)

lemma TIMESTAMP_round_whole: "TIMESTAMP_round t mod 1000000000 = 0"
  by (simp add: TIMESTAMP_round_def)

lemma TIMESTAMP_round_near:
  "t - 500000000 < TIMESTAMP_round t \<and> TIMESTAMP_round t \<le> t + 500000000"
proof -
  have "(t + 500000000) div 1000000000 * 1000000000 = (t + 500000000) - (t + 500000000) mod 1000000000"
    by (simp add: minus_mod_eq_div_mult)
  moreover have "0 \<le> (t + 500000000) mod 1000000000" "(t + 500000000) mod 1000000000 < 1000000000"
    by simp_all
  ultimately show ?thesis unfolding TIMESTAMP_round_def by linarith
qed

lemma TIMESTAMP_round_id: "t mod 1000000000 = 0 \<Longrightarrow> TIMESTAMP_round t = t"
proof -
  assume "t mod 1000000000 = 0"
  then obtain k where k: "t = 1000000000 * k" by (auto simp: mod_eq_0_iff_dvd)
  have "(1000000000 * k + 500000000) div 1000000000 = k"
    by simp
  with k show ?thesis by (simp add: TIMESTAMP_round_def)
qed

text \<open>
  Claim C6, as amended. The TTL table maps exactly \<open>1h\<close>, \<open>24h\<close>, \<open>168h\<close>, \<open>720h\<close> and
  \<open>8760h\<close> to one hour, one day, one week, 30 days and 365 days. A \<open>Create\<close> that succeeds
  returns the expiration \<open>now + d\<close> for the duration \<open>d\<close> of its TTL and hands that value
  to the store; the row it appends holds it as the \<open>TIMESTAMP\<close> column does, rounded to the
  whole second: within half a second of \<open>now + d\<close>, and equal to \<open>now + d\<close> when that is a
  whole second (second conjunct). \<open>Create\<close> does succeed so when its other steps do
  (third). For a TTL outside the table \<open>Create\<close> returns \<open>ErrInvalidTTL\<close> and leaves table
  and cache as they were.
\<close>

theorem Create_expiration_by_TTL:
  "ValidTTLs = map_of spec_ttl_table \<and>
   (fst (Create e now src req s) = Inr res \<longrightarrow>
      (\<exists>d. map_of spec_ttl_table (req_TTL req) = Some d \<and> res_ExpiresAt res = now + d \<and>
           (\<exists>u. repo (snd (Create e now src req s)) = repo s @ [u] \<and>
                Slug u = res_Slug res \<and>
                ExpiresAt u = TIMESTAMP_round (now + d) \<and>
                ExpiresAt u mod 1000000000 = 0 \<and>
                now + d - 500000000 < ExpiresAt u \<and> ExpiresAt u \<le> now + d + 500000000 \<and>
                ((now + d) mod 1000000000 = 0 \<longrightarrow> ExpiresAt u = now + d)))) \<and>
   (map_of spec_ttl_table (req_TTL req) = Some d \<and>
    resolveSlug e s (req_Slug req) src = Inr (slug, src1) \<and>
    hashPassword e (req_Password req) = Inr ph \<and>
    generateManageToken e src1 = Inr ((tok, h), src2) \<and>
    \<not> db_fails e (QInsert (new_url req slug ph h (now + d))) \<and>
    \<not> slug_taken e (repo s) slug \<longrightarrow>
      fst (Create e now src req s) =
        Inr \<lparr>res_Slug = slug, res_ShortURL = baseURL s @ ''/'' @ slug, res_ExpiresAt = now + d,
             res_Protected = (ph \<noteq> None), res_ManageToken = tok\<rparr> \<and>
      repo (snd (Create e now src req s)) =
        repo s @ [new_url req slug ph h (TIMESTAMP_round (now + d))]) \<and>
   (req_TTL req \<notin> {''1h'', ''24h'', ''168h'', ''720h'', ''8760h''} \<longrightarrow>
      Create e now src req s = (Inl ErrInvalidTTL, s))"
proof (intro conjI impI)
  show "ValidTTLs = map_of spec_ttl_table" by (rule ValidTTLs_spec)
next
  assume ok: "fst (Create e now src req s) = Inr res"
  from ok obtain d' slug' src1' ph' tok' h' src2' where
      ttl: "ValidTTLs (req_TTL req) = Some d'"
      and "resolveSlug e s (req_Slug req) src = Inr (slug', src1')"
      and "hashPassword e (req_Password req) = Inr ph'"
      and "generateManageToken e src1' = Inr ((tok', h'), src2')"
      and res: "res = \<lparr>res_Slug = slug', res_ShortURL = baseURL s @ ''/'' @ slug',
          res_ExpiresAt = now + d', res_Protected = (ph' \<noteq> None), res_ManageToken = tok'\<rparr>"
      and st: "snd (Create e now src req s) =
         s\<lparr>repo := repo s @ [new_url req slug' ph' h' (TIMESTAMP_round (now + d'))],
           cache := snd (cache_Set e now slug' (ToCached (new_url req slug' ph' h' (now + d'))) d' (cache s))\<rparr>"
    by (rule Create_InrE)
  let ?u = "new_url req slug' ph' h' (TIMESTAMP_round (now + d'))"
  have e: "ExpiresAt ?u = TIMESTAMP_round (now + d')" by (simp add: new_url_def)
  have "repo (snd (Create e now src req s)) = repo s @ [?u] \<and>
      Slug ?u = res_Slug res \<and>
      ExpiresAt ?u = TIMESTAMP_round (now + d') \<and>
      ExpiresAt ?u mod 1000000000 = 0 \<and>
      now + d' - 500000000 < ExpiresAt ?u \<and> ExpiresAt ?u \<le> now + d' + 500000000 \<and>
      ((now + d') mod 1000000000 = 0 \<longrightarrow> ExpiresAt ?u = now + d')"
    unfolding e
    using TIMESTAMP_round_whole [of "now + d'"] TIMESTAMP_round_near [of "now + d'"]
      TIMESTAMP_round_id [of "now + d'"]
    by (simp add: st res new_url_def)
  then have "\<exists>u. repo (snd (Create e now src req s)) = repo s @ [u] \<and>
                Slug u = res_Slug res \<and>
                ExpiresAt u = TIMESTAMP_round (now + d') \<and>
                ExpiresAt u mod 1000000000 = 0 \<and>
                now + d' - 500000000 < ExpiresAt u \<and> ExpiresAt u \<le> now + d' + 500000000 \<and>
                ((now + d') mod 1000000000 = 0 \<longrightarrow> ExpiresAt u = now + d')"
    by (rule exI)
  moreover have "map_of spec_ttl_table (req_TTL req) = Some d'"
    using ttl by (simp add: ValidTTLs_spec)
  moreover have "res_ExpiresAt res = now + d'" by (simp add: res)
  ultimately show "\<exists>d. map_of spec_ttl_table (req_TTL req) = Some d \<and> res_ExpiresAt res = now + d \<and>
           (\<exists>u. repo (snd (Create e now src req s)) = repo s @ [u] \<and>
                Slug u = res_Slug res \<and>
                ExpiresAt u = TIMESTAMP_round (now + d) \<and>
                ExpiresAt u mod 1000000000 = 0 \<and>
                now + d - 500000000 < ExpiresAt u \<and> ExpiresAt u \<le> now + d + 500000000 \<and>
                ((now + d) mod 1000000000 = 0 \<longrightarrow> ExpiresAt u = now + d))"
    by (intro exI [of _ d'] conjI)
next
  assume a: "map_of spec_ttl_table (req_TTL req) = Some d \<and>
    resolveSlug e s (req_Slug req) src = Inr (slug, src1) \<and>
    hashPassword e (req_Password req) = Inr ph \<and>
    generateManageToken e src1 = Inr ((tok, h), src2) \<and>
    \<not> db_fails e (QInsert (new_url req slug ph h (now + d))) \<and>
    \<not> slug_taken e (repo s) slug"
  then have 1: "ValidTTLs (req_TTL req) = Some d"
    and 2: "resolveSlug e s (req_Slug req) src = Inr (slug, src1)"
    and 3: "hashPassword e (req_Password req) = Inr ph"
    and 4: "generateManageToken e src1 = Inr ((tok, h), src2)"
    and 5: "\<not> db_fails e (QInsert (new_url req slug ph h (now + d)))"
    and 6: "\<not> slug_taken e (repo s) slug"
    by (simp_all add: ValidTTLs_spec)
  note eq = Create_success [OF 1 2 3 4 5 6]
  show "fst (Create e now src req s) =
        Inr \<lparr>res_Slug = slug, res_ShortURL = baseURL s @ ''/'' @ slug, res_ExpiresAt = now + d,
             res_Protected = (ph \<noteq> None), res_ManageToken = tok\<rparr>"
    by (simp add: eq)
  show "repo (snd (Create e now src req s)) =
        repo s @ [new_url req slug ph h (TIMESTAMP_round (now + d))]"
    by (simp add: eq)
next
  assume "req_TTL req \<notin> {''1h'', ''24h'', ''168h'', ''720h'', ''8760h''}"
  then have "ValidTTLs (req_TTL req) = None" by (simp only: ValidTTLs_None_iff not_False_eq_True)
  then show "Create e now src req s = (Inl ErrInvalidTTL, s)" by (simp add: Create_def)
qed

lemma ValidTTLs_24h: "ValidTTLs ''24h'' = Some 86400000000000"
  by (simp add: ValidTTLs_def TTL1Hour_def TTL1Day_def TTL1Week_def TTL1Month_def TTL1Year_def Hour_def)

lemma quarter_second_Create:
  "Create demo_env 1700000000250000000 token_bytes (demo_request ''hello'' ''24h'' []) (demo_service []) =
     (Inr \<lparr>res_Slug = ''hello'', res_ShortURL = ''https://sho.rt/hello'',
           res_ExpiresAt = 1700086400250000000, res_Protected = False, res_ManageToken = demo_token\<rparr>,
      \<lparr>repo = [demo_row ''hello'' None 1700086400000000000],
       cache = [cacheKey ''hello'' \<mapsto> (demo_cached, Some 1700086400250000000)],
       baseURL = ''https://sho.rt''\<rparr>)"
proof -
  let ?req = "demo_request ''hello'' ''24h'' []"
  have ttl: "ValidTTLs (req_TTL ?req) = Some 86400000000000"
    by (simp add: demo_request_def ValidTTLs_24h)
  have r: "resolveSlug demo_env (demo_service []) (req_Slug ?req) token_bytes = Inr (''hello'', token_bytes)"
    by (simp add: demo_request_def hello_free_resolve)
  have pw: "hashPassword demo_env (req_Password ?req) = Inr None"
    by (simp add: demo_request_def hashPassword_empty)
  have ins: "\<not> db_fails demo_env (QInsert (new_url ?req ''hello'' None demo_token_hash
      (1700000000250000000 + 86400000000000)))"
    by (simp add: demo_env_simps)
  have free: "\<not> slug_taken demo_env (repo (demo_service [])) ''hello''"
    by (simp add: slug_taken_def demo_service_def)
  show ?thesis
    unfolding Create_success [OF ttl r pw demo_generateManageToken ins free]
    by (simp add: demo_service_def demo_request_def new_url_def demo_row_def cache_Set_def
        demo_env_simps ToCached_def demo_cached_def TIMESTAMP_round_def)
qed

text \<open>
  Claim C6 as stated ("the record's expiration is the creation time plus the mapped
  duration") fails for the stored record: a link created a quarter of a second past a
  whole second for one day is returned with the expiration a day later to the nanosecond,
  and stored with the expiration a quarter of a second earlier.
\<close>

theorem Create_stored_expiration_counterexample:
  "fst (Create demo_env 1700000000250000000 token_bytes (demo_request ''hello'' ''24h'' [])
         (demo_service [])) =
     Inr \<lparr>res_Slug = ''hello'', res_ShortURL = ''https://sho.rt/hello'',
          res_ExpiresAt = 1700086400250000000, res_Protected = False, res_ManageToken = demo_token\<rparr> \<and>
   ValidTTLs ''24h'' = Some 86400000000000 \<and>
   repo (snd (Create demo_env 1700000000250000000 token_bytes (demo_request ''hello'' ''24h'' [])
         (demo_service []))) = [demo_row ''hello'' None 1700086400000000000] \<and>
   ExpiresAt (demo_row ''hello'' None 1700086400000000000) \<noteq> 1700000000250000000 + 86400000000000"
  by (simp add: quarter_second_Create ValidTTLs_24h demo_row_def)

theorem Create_expiration_by_TTL_witness:
  "map_of spec_ttl_table ''24h'' = Some 86400000000000 \<and>
   fst (Create demo_env 1700000000250000000 token_bytes (demo_request ''hello'' ''24h'' [])
         (demo_service [])) =
     Inr \<lparr>res_Slug = ''hello'', res_ShortURL = ''https://sho.rt/hello'',
          res_ExpiresAt = 1700086400250000000, res_Protected = False, res_ManageToken = demo_token\<rparr> \<and>
   repo (snd (Create demo_env 1700000000250000000 token_bytes (demo_request ''hello'' ''24h'' [])
         (demo_service []))) = [demo_row ''hello'' None 1700086400000000000] \<and>
   Create demo_env 1700000000250000000 token_bytes (demo_request ''hello'' ''2h'' []) (demo_service []) =
     (Inl ErrInvalidTTL, demo_service [])"
proof -
  let ?req = "demo_request ''hello'' ''24h'' []"
  let ?bad = "demo_request ''hello'' ''2h'' []"
  have ttl: "map_of spec_ttl_table (req_TTL ?req) = Some 86400000000000"
    by (simp add: spec_ttl_table_def demo_request_def)
  have r: "resolveSlug demo_env (demo_service []) (req_Slug ?req) token_bytes = Inr (''hello'', token_bytes)"
    by (simp add: demo_request_def hello_free_resolve)
  have pw: "hashPassword demo_env (req_Password ?req) = Inr None"
    by (simp add: demo_request_def hashPassword_empty)
  have ins: "\<not> db_fails demo_env (QInsert (new_url ?req ''hello'' None demo_token_hash
      (1700000000250000000 + 86400000000000)))"
    by (simp add: demo_env_simps)
  have free: "\<not> slug_taken demo_env (repo (demo_service [])) ''hello''"
    by (simp add: slug_taken_def demo_service_def)
  have bad: "req_TTL ?bad \<notin> {''1h'', ''24h'', ''168h'', ''720h'', ''8760h''}"
    by (simp add: demo_request_def)
  from Create_expiration_by_TTL [of demo_env 1700000000250000000 token_bytes ?req "demo_service []" _
      86400000000000 "''hello''" token_bytes None demo_token demo_token_hash "[]"]
    ttl r pw demo_generateManageToken ins free
  have good: "fst (Create demo_env 1700000000250000000 token_bytes ?req (demo_service [])) =
        Inr \<lparr>res_Slug = ''hello'', res_ShortURL = baseURL (demo_service []) @ ''/'' @ ''hello'',
             res_ExpiresAt = 1700000000250000000 + 86400000000000,
             res_Protected = (None \<noteq> (None :: string option)), res_ManageToken = demo_token\<rparr> \<and>
      repo (snd (Create demo_env 1700000000250000000 token_bytes ?req (demo_service []))) =
        repo (demo_service []) @ [new_url ?req ''hello'' None demo_token_hash
          (TIMESTAMP_round (1700000000250000000 + 86400000000000))]"
    by blast
  from Create_expiration_by_TTL [of demo_env 1700000000250000000 token_bytes ?bad "demo_service []"] bad
  have "Create demo_env 1700000000250000000 token_bytes ?bad (demo_service []) =
      (Inl ErrInvalidTTL, demo_service [])"
    by blast
  with good ttl show ?thesis
    by (simp add: demo_request_def demo_service_def new_url_def demo_row_def TIMESTAMP_round_def)
qed

section \<open>Random slugs and tokens\<close>

lemma base62_of_mem: "base62Chars ! (unat b mod length base62Chars) \<in> set base62Chars"
  by (rule nth_mem) (simp add: length_base62Chars)

lemma randomBase62_scan_length:
  "length result < len \<Longrightarrow> length (randomBase62_scan len result buf) \<le> len"
  by (induction buf arbitrary: result) (auto simp: Let_def)

lemma randomBase62_scan_set:
  "set result \<subseteq> set base62Chars \<Longrightarrow> set (randomBase62_scan len result buf) \<subseteq> set base62Chars"
proof (induction buf arbitrary: result)
  case Nil
  then show ?case by simp
next
  case (Cons b buf)
  have "set (result @ [base62Chars ! (unat b mod length base62Chars)]) \<subseteq> set base62Chars"
    using Cons.prems base62_of_mem [of b] by simp
  with Cons show ?case by (simp add: Let_def)
qed

lemma randomBase62_loop_Inr:
  assumes "randomBase62_loop len result src = Inr (r, src')"
    and "length result \<le> len" and "set result \<subseteq> set base62Chars"
  shows "length r = len \<and> set r \<subseteq> set base62Chars"
  using assms
proof (induction len result src rule: randomBase62_loop.induct)
  case (1 len result src)
  note unf = randomBase62_loop.simps [of len result src]
  show ?case
  proof (cases "length result < len")
    case False
    with "1.prems" show ?thesis by (simp add: unf)
  next
    case True
    show ?thesis
    proof (cases "length src < len")
      case short: True
      with True "1.prems" show ?thesis by (simp add: unf)
    next
      case enough: False
      from True enough "1.prems"(1)
      have rec: "randomBase62_loop len (randomBase62_scan len result (take len src)) (drop len src) =
          Inr (r, src')"
        by (simp add: unf)
      show ?thesis
        by (rule "1.IH" [OF True enough rec randomBase62_scan_length [OF True]
              randomBase62_scan_set [OF "1.prems"(3)]])
    qed
  qed
qed

lemma randomBase62_Inr:
  "randomBase62 len src = Inr (r, src') \<Longrightarrow> length r = len \<and> set r \<subseteq> set base62Chars"
  using randomBase62_loop_Inr [of len "[]" src r src'] by (simp add: randomBase62_def)

lemma randomBase62_scan_good:
  assumes "\<forall>b \<in> set buf. unat b < unbiasedCeiling" and "length result + length buf \<le> len"
  shows "randomBase62_scan len result buf =
     result @ map (\<lambda>b. base62Chars ! (unat b mod length base62Chars)) buf"
  using assms by (induction buf arbitrary: result) (auto simp: Let_def)

lemma randomBase62_good:
  assumes "len \<le> length src" and "\<forall>b \<in> set (take len src). unat b < unbiasedCeiling"
  shows "randomBase62 len src =
     Inr (map (\<lambda>b. base62Chars ! (unat b mod length base62Chars)) (take len src), drop len src)"
proof (cases "len = 0")
  case True
  then show ?thesis by (simp add: randomBase62_def randomBase62_loop.simps [of 0])
next
  case False
  let ?r = "map (\<lambda>b. base62Chars ! (unat b mod length base62Chars)) (take len src)"
  have scan: "randomBase62_scan len [] (take len src) = ?r"
    using randomBase62_scan_good [OF assms(2), of "[]" len] assms(1) by simp
  have "randomBase62_loop len [] src = randomBase62_loop len ?r (drop len src)"
    using False assms(1) by (simp add: randomBase62_loop.simps [of len "[]" src] scan)
  also have "\<dots> = Inr (?r, drop len src)"
    using assms(1) by (simp add: randomBase62_loop.simps [of len ?r])
  finally show ?thesis by (simp add: randomBase62_def)
qed

lemma length_hex_EncodeToString: "length (hex_EncodeToString bs) = 2 * length bs"
  by (induction bs) (simp_all add: hex_EncodeToString_def)

lemma length_Rep_digest: "length (Rep_digest d) = 32"
  using Rep_digest [of d] by simp

lemma generateManageToken_Inr:
  assumes "generateManageToken e src = Inr ((tok, h), src')"
  shows "length tok = 32 \<and> set tok \<subseteq> set base62Chars \<and>
     h = hex_EncodeToString (Rep_digest (sha256_Sum256 e tok)) \<and> length h = 64 \<and> h \<noteq> tok"
proof (cases "randomBase62 manageTokenLength src")
  case (Inl err)
  with assms show ?thesis by (simp add: generateManageToken_def)
next
  case (Inr p)
  obtain plain rest where p: "p = (plain, rest)" by (cases p)
  from Inr p assms have tok: "tok = plain"
    and h: "h = hex_EncodeToString (Rep_digest (sha256_Sum256 e plain))"
    by (auto simp: generateManageToken_def)
  from randomBase62_Inr [OF Inr [unfolded p]]
  have "length plain = 32" and "set plain \<subseteq> set base62Chars"
    by (simp_all add: manageTokenLength_def)
  moreover have "length h = 64" by (simp add: h length_hex_EncodeToString length_Rep_digest)
  ultimately show ?thesis using tok h by auto
qed

lemma generateUniqueSlug_rounds_Inr:
  "generateUniqueSlug_rounds e s k src = Inr (slug, src') \<Longrightarrow>
     length slug = 8 \<and> set slug \<subseteq> set base62Chars \<and> \<not> slug_taken e (repo s) slug"
proof (induction k arbitrary: src)
  case 0
  then show ?case by simp
next
  case (Suc k)
  show ?case
  proof (cases "randomBase62 autoSlugLength src")
    case (Inl err)
    with Suc.prems show ?thesis by simp
  next
    case (Inr p)
    obtain c rest where p: "p = (c, rest)" by (cases p)
    from randomBase62_Inr [OF Inr [unfolded p]]
    have c: "length c = 8 \<and> set c \<subseteq> set base62Chars" by (simp add: autoSlugLength_def)
    show ?thesis
    proof (cases "SlugExists e c (repo s)")
      case Inl2: (Inl err)
      with Inr p Suc.prems show ?thesis by simp
    next
      case Inr2: (Inr ex)
      show ?thesis
      proof (cases ex)
        case True
        with Inr p Inr2 Suc.prems have "generateUniqueSlug_rounds e s k rest = Inr (slug, src')"
          by simp
        then show ?thesis by (rule Suc.IH)
      next
        case False
        with Inr p Inr2 Suc.prems have "slug = c" by simp
        with c Inr2 False show ?thesis by (simp add: SlugExists_Inr)
      qed
    qed
  qed
qed

lemma generateUniqueSlug_first_round:
  assumes "randomBase62 autoSlugLength src = Inr (c, rest)"
    and "SlugExists e c (repo s) = Inr False"
  shows "generateUniqueSlug e s src = Inr (c, rest)"
proof -
  have ten: "(10::nat) = Suc 9" by simp
  show ?thesis
    unfolding generateUniqueSlug_def maxAutoSlugTries_def ten
    by (subst generateUniqueSlug_rounds.simps) (simp add: assms)
qed

lemma resolveSlug_empty: "resolveSlug e s [] src = generateUniqueSlug e s src"
  by (simp add: resolveSlug_def)

lemma generateManageToken_good:
  assumes "32 \<le> length src" and "\<forall>b \<in> set (take 32 src). unat b < unbiasedCeiling"
  shows "\<exists>tok h. generateManageToken e src = Inr ((tok, h), drop 32 src)"
  using randomBase62_good [OF assms]
  by (simp add: generateManageToken_def manageTokenLength_def)

text \<open>
  Claim C10. A \<open>Create\<close> without slug and without password that succeeds returns a
  generated slug of exactly 8 characters of the base62 alphabet, \<open>protected = false\<close>, and a
  token of 32 base62 characters; the row it appends stores the hex-encoded SHA-256 of the
  token (64 characters), which differs from the token, and no password hash. The second
  conjunct says that \<open>Create\<close> does return a result when the TTL is valid, no query fails,
  the first 40 random bytes are below 248 and the slug made of the first eight is free.
\<close>

theorem Create_generated_slug_and_token:
  assumes noslug: "req_Slug req = []" and nopw: "req_Password req = []"
  shows "(fst (Create e now src req s) = Inr res \<longrightarrow>
            length (res_Slug res) = 8 \<and> set (res_Slug res) \<subseteq> set base62Chars \<and>
            \<not> res_Protected res \<and>
            length (res_ManageToken res) = 32 \<and> set (res_ManageToken res) \<subseteq> set base62Chars \<and>
            (\<exists>u. repo (snd (Create e now src req s)) = repo s @ [u] \<and>
                 Slug u = res_Slug res \<and> TargetURL u = req_TargetURL req \<and>
                 PasswordHash u = None \<and>
                 ManageTokenHash u =
                   hex_EncodeToString (Rep_digest (sha256_Sum256 e (res_ManageToken res))) \<and>
                 length (ManageTokenHash u) = 64 \<and>
                 ManageTokenHash u \<noteq> res_ManageToken res)) \<and>
         (ValidTTLs (req_TTL req) \<noteq> None \<and> 40 \<le> length src \<and>
          (\<forall>b \<in> set (take 40 src). unat b < 248) \<and> (\<forall>q. \<not> db_fails e q) \<and>
          \<not> slug_taken e (repo s)
              (map (\<lambda>b. base62Chars ! (unat b mod length base62Chars)) (take 8 src)) \<longrightarrow>
            (\<exists>r. fst (Create e now src req s) = Inr r))"
proof (intro conjI impI)
  assume ok: "fst (Create e now src req s) = Inr res"
  from ok obtain d slug src1 ph tok h src2 where
      ttl: "ValidTTLs (req_TTL req) = Some d"
      and r: "resolveSlug e s (req_Slug req) src = Inr (slug, src1)"
      and pw: "hashPassword e (req_Password req) = Inr ph"
      and g: "generateManageToken e src1 = Inr ((tok, h), src2)"
      and res: "res = \<lparr>res_Slug = slug, res_ShortURL = baseURL s @ ''/'' @ slug,
          res_ExpiresAt = now + d, res_Protected = (ph \<noteq> None), res_ManageToken = tok\<rparr>"
      and st: "snd (Create e now src req s) =
         s\<lparr>repo := repo s @ [new_url req slug ph h (TIMESTAMP_round (now + d))],
           cache := snd (cache_Set e now slug (ToCached (new_url req slug ph h (now + d))) d (cache s))\<rparr>"
    by (rule Create_InrE)
  from r noslug have "generateUniqueSlug_rounds e s maxAutoSlugTries src = Inr (slug, src1)"
    by (simp add: resolveSlug_empty generateUniqueSlug_def)
  from generateUniqueSlug_rounds_Inr [OF this]
  have slug: "length slug = 8" "set slug \<subseteq> set base62Chars" by simp_all
  from pw nopw have ph: "ph = None" by (simp add: hashPassword_def)
  note tok = generateManageToken_Inr [OF g]
  show "length (res_Slug res) = 8" using slug by (simp add: res)
  show "set (res_Slug res) \<subseteq> set base62Chars" using slug by (simp add: res)
  show "\<not> res_Protected res" using ph by (simp add: res)
  show "length (res_ManageToken res) = 32" using tok by (simp add: res)
  show "set (res_ManageToken res) \<subseteq> set base62Chars" using tok by (simp add: res)
  have "repo (snd (Create e now src req s)) = repo s @ [new_url req slug ph h (TIMESTAMP_round (now + d))] \<and>
      Slug (new_url req slug ph h (TIMESTAMP_round (now + d))) = res_Slug res \<and>
      TargetURL (new_url req slug ph h (TIMESTAMP_round (now + d))) = req_TargetURL req \<and>
      PasswordHash (new_url req slug ph h (TIMESTAMP_round (now + d))) = None \<and>
      ManageTokenHash (new_url req slug ph h (TIMESTAMP_round (now + d))) =
        hex_EncodeToString (Rep_digest (sha256_Sum256 e (res_ManageToken res))) \<and>
      length (ManageTokenHash (new_url req slug ph h (TIMESTAMP_round (now + d)))) = 64 \<and>
      ManageTokenHash (new_url req slug ph h (TIMESTAMP_round (now + d))) \<noteq> res_ManageToken res"
    using tok ph by (auto simp: st res new_url_def)
  then show "\<exists>u. repo (snd (Create e now src req s)) = repo s @ [u] \<and>
                 Slug u = res_Slug res \<and> TargetURL u = req_TargetURL req \<and>
                 PasswordHash u = None \<and>
                 ManageTokenHash u =
                   hex_EncodeToString (Rep_digest (sha256_Sum256 e (res_ManageToken res))) \<and>
                 length (ManageTokenHash u) = 64 \<and>
                 ManageTokenHash u \<noteq> res_ManageToken res"
    by (rule exI)
next
  let ?slug = "map (\<lambda>b. base62Chars ! (unat b mod length base62Chars)) (take 8 src)"
  assume a: "ValidTTLs (req_TTL req) \<noteq> None \<and> 40 \<le> length src \<and>
          (\<forall>b \<in> set (take 40 src). unat b < 248) \<and> (\<forall>q. \<not> db_fails e q) \<and>
          \<not> slug_taken e (repo s) ?slug"
  then obtain d where ttl: "ValidTTLs (req_TTL req) = Some d" by auto
  from a have len: "40 \<le> length src" and up: "\<forall>q. \<not> db_fails e q"
    and free: "\<not> slug_taken e (repo s) ?slug" by simp_all
  have split: "take 40 src = take 8 src @ take 32 (drop 8 src)"
    using take_add [of 8 32 src] by simp
  from a have good: "\<forall>b \<in> set (take 40 src). unat b < unbiasedCeiling"
    by (simp add: unbiasedCeiling_248)
  have good8: "\<forall>b \<in> set (take 8 src). unat b < unbiasedCeiling"
    and good32: "\<forall>b \<in> set (take 32 (drop 8 src)). unat b < unbiasedCeiling"
    using good unfolding split by simp_all
  have "randomBase62 autoSlugLength src = Inr (?slug, drop 8 src)"
    using randomBase62_good [of 8 src] good8 len by (simp add: autoSlugLength_def)
  moreover have "SlugExists e ?slug (repo s) = Inr False"
    using up free by (simp add: SlugExists_def)
  ultimately have "generateUniqueSlug e s src = Inr (?slug, drop 8 src)"
    by (rule generateUniqueSlug_first_round)
  with noslug have r: "resolveSlug e s (req_Slug req) src = Inr (?slug, drop 8 src)"
    by (simp add: resolveSlug_empty)
  from nopw have pw: "hashPassword e (req_Password req) = Inr None"
    by (simp add: hashPassword_empty)
  have "32 \<le> length (drop 8 src)" using len by simp
  from generateManageToken_good [OF this good32, of e]
  obtain tok h src2 where g: "generateManageToken e (drop 8 src) = Inr ((tok, h), src2)"
    by blast
  from up have ins: "\<not> db_fails e (QInsert (new_url req ?slug None h (now + d)))" by simp
  from Create_success [OF ttl r pw g ins free]
  show "\<exists>r. fst (Create e now src req s) = Inr r" by simp
qed

lemma demo_generated_Create:
  "Create demo_env 0 (slug_bytes @ token_bytes) (demo_request [] ''1h'' []) (demo_service []) =
     (Inr \<lparr>res_Slug = ''01234567'', res_ShortURL = ''https://sho.rt/01234567'',
           res_ExpiresAt = 3600000000000, res_Protected = False, res_ManageToken = demo_token\<rparr>,
      \<lparr>repo = [demo_row ''01234567'' None 3600000000000],
       cache = [cacheKey ''01234567'' \<mapsto> (demo_cached, Some 3600000000000)],
       baseURL = ''https://sho.rt''\<rparr>)"
proof -
  let ?req = "demo_request [] ''1h'' []"
  have ttl: "ValidTTLs (req_TTL ?req) = Some 3600000000000"
    by (simp add: demo_request_def ValidTTLs_1h)
  have free: "\<not> slug_taken demo_env (repo (demo_service [])) ''01234567''"
    by (simp add: slug_taken_def demo_service_def)
  have "generateUniqueSlug demo_env (demo_service []) (slug_bytes @ token_bytes) =
      Inr (''01234567'', token_bytes)"
    using free
    by (intro generateUniqueSlug_first_round)
      (simp_all add: autoSlugLength_def randomBase62_slug_bytes SlugExists_def demo_env_simps)
  then have r: "resolveSlug demo_env (demo_service []) (req_Slug ?req) (slug_bytes @ token_bytes) =
      Inr (''01234567'', token_bytes)"
    by (simp add: demo_request_def resolveSlug_empty)
  have pw: "hashPassword demo_env (req_Password ?req) = Inr None"
    by (simp add: demo_request_def hashPassword_empty)
  have ins: "\<not> db_fails demo_env (QInsert (new_url ?req ''01234567'' None demo_token_hash
      (0 + 3600000000000)))"
    by (simp add: demo_env_simps)
  show ?thesis
    unfolding Create_success [OF ttl r pw demo_generateManageToken ins free]
    by (simp add: demo_service_def demo_request_def new_url_def demo_row_def cache_Set_def
        demo_env_simps ToCached_def demo_cached_def TIMESTAMP_round_hour)
qed

lemma demo_token_hash_neq: "demo_token_hash \<noteq> demo_token"
proof -
  have "length demo_token_hash = 64"
    by (simp add: demo_token_hash_def length_hex_EncodeToString length_Rep_digest)
  moreover have "length demo_token = 32" by (simp add: demo_token_def)
  ultimately show ?thesis by auto
qed

theorem Create_generated_slug_and_token_witness:
  "fst (Create demo_env 0 (slug_bytes @ token_bytes) (demo_request [] ''1h'' []) (demo_service [])) =
     Inr \<lparr>res_Slug = ''01234567'', res_ShortURL = ''https://sho.rt/01234567'',
          res_ExpiresAt = 3600000000000, res_Protected = False, res_ManageToken = demo_token\<rparr> \<and>
   length ''01234567'' = 8 \<and> set ''01234567'' \<subseteq> set base62Chars \<and>
   length demo_token = 32 \<and> set demo_token \<subseteq> set base62Chars \<and>
   repo (snd (Create demo_env 0 (slug_bytes @ token_bytes) (demo_request [] ''1h'' []) (demo_service []))) =
     [demo_row ''01234567'' None 3600000000000] \<and>
   ManageTokenHash (demo_row ''01234567'' None 3600000000000) =
     hex_EncodeToString (Rep_digest (sha256_Sum256 demo_env demo_token)) \<and>
   ManageTokenHash (demo_row ''01234567'' None 3600000000000) \<noteq> demo_token \<and>
   (\<exists>r. fst (Create demo_env 0 (token_bytes @ token_bytes) (demo_request [] ''1h'' [])
          (demo_service [])) = Inr r)"
proof -
  let ?req = "demo_request [] ''1h'' []"
  let ?res = "\<lparr>res_Slug = ''01234567'', res_ShortURL = ''https://sho.rt/01234567'',
          res_ExpiresAt = 3600000000000, res_Protected = False, res_ManageToken = demo_token\<rparr>"
  have 1: "req_Slug ?req = []" and 2: "req_Password ?req = []" by (simp_all add: demo_request_def)
  have ttl: "ValidTTLs (req_TTL ?req) \<noteq> None" by (simp add: demo_request_def ValidTTLs_1h)
  have len: "40 \<le> length (token_bytes @ token_bytes)" by (simp add: token_bytes_def)
  have good: "\<forall>b \<in> set (take 40 (token_bytes @ token_bytes)). unat b < 248"
    by (simp add: token_bytes_def)
  have up: "\<forall>q. \<not> db_fails demo_env q" by (simp add: demo_env_simps)
  have free: "\<not> slug_taken demo_env (repo (demo_service []))
      (map (\<lambda>b. base62Chars ! (unat b mod length base62Chars)) (take 8 (token_bytes @ token_bytes)))"
    by (simp add: slug_taken_def demo_service_def)
  from Create_generated_slug_and_token [OF 1 2, of demo_env 0 "token_bytes @ token_bytes"
      "demo_service []"] ttl len good up free
  have enough: "\<exists>r. fst (Create demo_env 0 (token_bytes @ token_bytes) ?req (demo_service [])) = Inr r"
    by blast
  have c: "fst (Create demo_env 0 (slug_bytes @ token_bytes) ?req (demo_service [])) = Inr ?res"
    by (simp add: demo_generated_Create)
  from Create_generated_slug_and_token [OF 1 2, of demo_env 0 "slug_bytes @ token_bytes"
      "demo_service []" "?res"] c
  have "length (res_Slug ?res) = 8 \<and> set (res_Slug ?res) \<subseteq> set base62Chars \<and>
      length (res_ManageToken ?res) = 32 \<and> set (res_ManageToken ?res) \<subseteq> set base62Chars \<and>
      (\<exists>u. repo (snd (Create demo_env 0 (slug_bytes @ token_bytes) ?req (demo_service []))) =
             repo (demo_service []) @ [u] \<and>
           ManageTokenHash u =
             hex_EncodeToString (Rep_digest (sha256_Sum256 demo_env (res_ManageToken ?res))) \<and>
           ManageTokenHash u \<noteq> res_ManageToken ?res)"
    by blast
  then have "length ''01234567'' = 8 \<and> set ''01234567'' \<subseteq> set base62Chars \<and>
      length demo_token = 32 \<and> set demo_token \<subseteq> set base62Chars \<and>
      ManageTokenHash (demo_row ''01234567'' None 3600000000000) =
        hex_EncodeToString (Rep_digest (sha256_Sum256 demo_env demo_token)) \<and>
      ManageTokenHash (demo_row ''01234567'' None 3600000000000) \<noteq> demo_token"
    unfolding demo_generated_Create by (auto simp: demo_service_def)
  moreover have "repo (snd (Create demo_env 0 (slug_bytes @ token_bytes) ?req (demo_service []))) =
      [demo_row ''01234567'' None 3600000000000]"
    by (simp add: demo_generated_Create)
  ultimately show ?thesis using c enough by blast
qed

section \<open>The cache-aside lookup\<close>

lemma lookupCached_hit:
  "cache_Get e now slug (cache s) = Inr (Some c) \<Longrightarrow>
     lookupCached e dbnow now slug s = (Inr (Some c), s)"
  by (simp add: lookupCached_def)

lemma lookupCached_miss:
  assumes "\<forall>c. cache_Get e now slug (cache s) \<noteq> Inr (Some c)"
  shows "fst (lookupCached e dbnow now slug s) = store_lookup e dbnow now slug (repo s)"
proof -
  have "(case cache_Get e now slug (cache s) of Inl err \<Rightarrow> None | Inr c \<Rightarrow> c) = None"
    using assms by (cases "cache_Get e now slug (cache s)") auto
  then show ?thesis
    by (simp add: lookupCached_def store_lookup_def Let_def split: sum.splits option.splits)
qed

lemma find_Some_D: "find P xs = Some x \<Longrightarrow> x \<in> set xs \<and> P x"
  by (induction xs) (auto split: if_splits)

lemma store_lookup_expired:
  assumes "\<not> db_fails e (QFind slug)"
    and "\<forall>u \<in> set tbl. collate e (Slug u) = collate e slug \<longrightarrow>
           ExpiresAt u \<le> dbnow \<or> ExpiresAt u \<le> now"
  shows "store_lookup e dbnow now slug tbl = Inr None"
proof (cases "find (\<lambda>r. collate e (Slug r) = collate e slug \<and> ExpiresAt r > dbnow) tbl")
  case None
  with assms(1) show ?thesis by (simp add: store_lookup_def FindBySlug_def)
next
  case (Some u)
  from find_Some_D [OF Some] have "u \<in> set tbl" "collate e (Slug u) = collate e slug"
    "dbnow < ExpiresAt u" by simp_all
  with assms(2) have "ExpiresAt u \<le> now" by auto
  with Some assms(1) show ?thesis by (simp add: store_lookup_def FindBySlug_def)
qed

lemma lookupCached_None_state:
  "fst (lookupCached e dbnow now slug s) = Inr None \<Longrightarrow> snd (lookupCached e dbnow now slug s) = s"
  by (auto simp: lookupCached_def Let_def split: sum.splits option.splits if_splits)

text \<open>
  Claim C1, as amended. \<open>Resolve\<close> asks the cache first and returns what the cache holds
  for the slug, without reading the store. So: when the cache returns an entry, that
  entry is the result and the state is unchanged; when it returns none (a miss, an entry
  past its deadline, or a failing \<open>Get\<close>), the store query succeeds and every row of the
  slug has expired (for the database's clock or for the service's), the result is "not
  found": \<open>nil\<close> without error.
\<close>

theorem Resolve_expired_unless_cached:
  "(cache_Get e now slug (cache s) = Inr (Some c) \<longrightarrow>
      Resolve e dbnow now slug s = (Inr (Some c), s)) \<and>
   ((\<forall>c. cache_Get e now slug (cache s) \<noteq> Inr (Some c)) \<and> \<not> db_fails e (QFind slug) \<and>
    (\<forall>u \<in> set (repo s). collate e (Slug u) = collate e slug \<longrightarrow>
        ExpiresAt u \<le> dbnow \<or> ExpiresAt u \<le> now) \<longrightarrow>
      Resolve e dbnow now slug s = (Inr None, s))"
proof (intro conjI impI)
  assume "cache_Get e now slug (cache s) = Inr (Some c)"
  then show "Resolve e dbnow now slug s = (Inr (Some c), s)"
    by (simp add: Resolve_def lookupCached_hit)
next
  assume a: "(\<forall>c. cache_Get e now slug (cache s) \<noteq> Inr (Some c)) \<and> \<not> db_fails e (QFind slug) \<and>
    (\<forall>u \<in> set (repo s). collate e (Slug u) = collate e slug \<longrightarrow>
        ExpiresAt u \<le> dbnow \<or> ExpiresAt u \<le> now)"
  then have miss: "\<forall>c. cache_Get e now slug (cache s) \<noteq> Inr (Some c)"
    and up: "\<not> db_fails e (QFind slug)"
    and expired: "\<forall>u \<in> set (repo s). collate e (Slug u) = collate e slug \<longrightarrow>
        ExpiresAt u \<le> dbnow \<or> ExpiresAt u \<le> now"
    by simp_all
  have "fst (lookupCached e dbnow now slug s) = Inr None"
    by (simp add: lookupCached_miss [OF miss] store_lookup_expired [OF up expired])
  with lookupCached_None_state [OF this] show "Resolve e dbnow now slug s = (Inr None, s)"
    by (simp add: Resolve_def prod_eq_iff)
qed

lemma created_state_eq:
  "created_state =
     \<lparr>repo = [demo_row ''hello'' None 3600000000000],
      cache = [cacheKey ''hello'' \<mapsto> (demo_cached, Some 3600000000000)],
      baseURL = ''https://sho.rt''\<rparr>"
proof -
  let ?req = "demo_request ''hello'' ''1h'' []"
  have ttl: "ValidTTLs (req_TTL ?req) = Some 3600000000000"
    by (simp add: demo_request_def ValidTTLs_1h)
  have r: "resolveSlug demo_env (demo_service []) (req_Slug ?req) token_bytes = Inr (''hello'', token_bytes)"
    by (simp add: demo_request_def hello_free_resolve)
  have pw: "hashPassword demo_env (req_Password ?req) = Inr None"
    by (simp add: demo_request_def hashPassword_empty)
  have ins: "\<not> db_fails demo_env (QInsert (new_url ?req ''hello'' None demo_token_hash (0 + 3600000000000)))"
    by (simp add: demo_env_simps)
  have free: "\<not> slug_taken demo_env (repo (demo_service [])) ''hello''"
    by (simp add: slug_taken_def demo_service_def)
  show ?thesis
    unfolding created_state_def Create_success [OF ttl r pw demo_generateManageToken ins free]
    by (simp add: demo_service_def demo_request_def new_url_def demo_row_def cache_Set_def
        demo_env_simps ToCached_def demo_cached_def TIMESTAMP_round_hour)
qed

lemma cache_down_env_simps:
  "collate cache_down_env = fold_case" "db_fails cache_down_env q = False"
  "cache_fails cache_down_env op = True" "sha256_Sum256 cache_down_env = toy_Sum256"
  by (simp_all add: cache_down_env_def demo_env_def)

lemma expire_created_state:
  "ExpireEarly cache_down_env 10 ''hello'' demo_token created_state =
     (Inr (),
      \<lparr>repo = [demo_row ''hello'' None 10],
       cache = [cacheKey ''hello'' \<mapsto> (demo_cached, Some 3600000000000)],
       baseURL = ''https://sho.rt''\<rparr>)"
  by (simp add: ExpireEarly_def ExpireBySlug_def expire_matches_def cache_Delete_def
      cache_down_env_simps created_state_eq demo_row_def demo_token_hash_def)

lemma stale_state_eq:
  "stale_state =
     \<lparr>repo = [demo_row ''hello'' None 10],
      cache = [cacheKey ''hello'' \<mapsto> (demo_cached, Some 3600000000000)],
      baseURL = ''https://sho.rt''\<rparr>"
  by (simp add: stale_state_def expire_created_state)

lemma stale_cache_Get: "cache_Get demo_env 20 ''hello'' (cache stale_state) = Inr (Some demo_cached)"
  by (simp add: cache_Get_def demo_env_simps stale_state_eq)

text \<open>
  Claim C1 as stated ("not found for every expired record, even while the cache still
  holds an entry") fails. Link \<open>hello\<close> is created at instant 0 for one hour and expired
  early at instant 10 while the cache is down: \<open>ExpireEarly\<close> succeeds, the row expires at
  10, the entry written by \<open>Create\<close> stays. At instant 20 the store has no live row for
  \<open>hello\<close>, and \<open>Resolve\<close> returns the cached target.
\<close>

theorem Resolve_expired_cache_hit_counterexample:
  "fst (ExpireEarly cache_down_env 10 ''hello'' demo_token created_state) = Inr () \<and>
   repo stale_state = [demo_row ''hello'' None 10] \<and>
   ExpiresAt (demo_row ''hello'' None 10) \<le> 20 \<and>
   FindBySlug demo_env 20 ''hello'' (repo stale_state) = Inr None \<and>
   fst (Resolve demo_env 20 20 ''hello'' stale_state) = Inr (Some demo_cached) \<and>
   fst (Resolve demo_env 20 20 ''hello'' stale_state) \<noteq> Inr None"
  by (simp add: expire_created_state Resolve_def lookupCached_hit [OF stale_cache_Get])
    (simp add: stale_state_eq FindBySlug_def demo_env_simps demo_row_def)

theorem Resolve_expired_unless_cached_witness:
  "cache_Get demo_env 20 ''hello'' (cache stale_state) = Inr (Some demo_cached) \<and>
   Resolve demo_env 20 20 ''hello'' stale_state = (Inr (Some demo_cached), stale_state) \<and>
   cache_Get cache_down_env 20 ''hello'' (cache stale_state) = Inl ErrRedisGet \<and>
   repo stale_state = [demo_row ''hello'' None 10] \<and>
   Resolve cache_down_env 20 20 ''hello'' stale_state = (Inr None, stale_state)"
proof -
  have get: "cache_Get cache_down_env 20 ''hello'' (cache stale_state) = Inl ErrRedisGet"
    by (simp add: cache_Get_def cache_down_env_simps)
  then have miss: "\<forall>c. cache_Get cache_down_env 20 ''hello'' (cache stale_state) \<noteq> Inr (Some c)"
    by simp
  have up: "\<not> db_fails cache_down_env (QFind ''hello'')" by (simp add: cache_down_env_simps)
  have rows: "repo stale_state = [demo_row ''hello'' None 10]" by (simp add: stale_state_eq)
  have expired: "\<forall>u \<in> set (repo stale_state). collate cache_down_env (Slug u) = collate cache_down_env ''hello'' \<longrightarrow>
      ExpiresAt u \<le> 20 \<or> ExpiresAt u \<le> 20"
    by (simp add: rows demo_row_def)
  from Resolve_expired_unless_cached [of demo_env 20 "''hello''" stale_state demo_cached 20]
    stale_cache_Get
  have hit: "Resolve demo_env 20 20 ''hello'' stale_state = (Inr (Some demo_cached), stale_state)"
    by blast
  from Resolve_expired_unless_cached [of cache_down_env 20 "''hello''" stale_state _ 20]
    miss up expired
  have "Resolve cache_down_env 20 20 ''hello'' stale_state = (Inr None, stale_state)"
    by blast
  with hit get rows stale_cache_Get show ?thesis by simp
qed

lemma lookupCached_live:
  assumes find: "FindBySlug e dbnow slug (repo s) = Inr (Some u)"
    and live: "now < ExpiresAt u"
    and coherent: "\<forall>c. cache_Get e now slug (cache s) = Inr (Some c) \<longrightarrow> c = ToCached u"
  shows "fst (lookupCached e dbnow now slug s) = Inr (Some (ToCached u))"
proof (cases "\<exists>c. cache_Get e now slug (cache s) = Inr (Some c)")
  case True
  then obtain c where c: "cache_Get e now slug (cache s) = Inr (Some c)" by blast
  with coherent have "c = ToCached u" by blast
  with lookupCached_hit [OF c] show ?thesis by simp
next
  case False
  then have "\<forall>c. cache_Get e now slug (cache s) \<noteq> Inr (Some c)" by blast
  from lookupCached_miss [OF this] find live show ?thesis
    by (simp add: store_lookup_def)
qed

lemma VerifyPassword_fst:
  "fst (VerifyPassword e dbnow now slug password s) =
     (case fst (lookupCached e dbnow now slug s) of
        Inl err \<Rightarrow> Inl err
      | Inr None \<Rightarrow> Inr []
      | Inr (Some cached) \<Rightarrow>
          if \<not> cached_Protected cached then Inr (cached_TargetURL cached)
          else if \<not> bcrypt_CompareHashAndPassword e (cached_PasswordHash cached) password
               then Inl ErrInvalidPassword
               else Inr (cached_TargetURL cached))"
  by (cases "lookupCached e dbnow now slug s")
    (simp add: VerifyPassword_def split: sum.splits option.splits)

section \<open>Password verification\<close>

text \<open>
  Claim C7, as amended. For a live record of the slug (found by the store, not expired for
  the service's clock) and a cache that holds no entry for the slug or the projection of
  that record: if the record is protected, \<open>VerifyPassword\<close> returns the target URL for a
  password that bcrypt accepts against the stored hash and \<open>ErrInvalidPassword\<close> for one it
  rejects; if it is not protected, it returns the target URL for any password, the empty
  one included. Whenever the cache returns an entry for the slug, \<open>VerifyPassword\<close> decides
  on that entry (its target, protection flag and hash) without reading the store, and
  leaves the state as it was.
\<close>

theorem VerifyPassword_by_protection:
  "(FindBySlug e dbnow slug (repo s) = Inr (Some u) \<and> now < ExpiresAt u \<and>
    (\<forall>c. cache_Get e now slug (cache s) = Inr (Some c) \<longrightarrow> c = ToCached u) \<longrightarrow>
      (PasswordHash u = Some h \<and> bcrypt_CompareHashAndPassword e h password \<longrightarrow>
         fst (VerifyPassword e dbnow now slug password s) = Inr (TargetURL u)) \<and>
      (PasswordHash u = Some h \<and> \<not> bcrypt_CompareHashAndPassword e h password \<longrightarrow>
         fst (VerifyPassword e dbnow now slug password s) = Inl ErrInvalidPassword) \<and>
      (PasswordHash u = None \<longrightarrow>
         fst (VerifyPassword e dbnow now slug password s) = Inr (TargetURL u) \<and>
         fst (VerifyPassword e dbnow now slug [] s) = Inr (TargetURL u))) \<and>
   (cache_Get e now slug (cache s) = Inr (Some c) \<longrightarrow>
      VerifyPassword e dbnow now slug password s =
        (if \<not> cached_Protected c then Inr (cached_TargetURL c)
         else if \<not> bcrypt_CompareHashAndPassword e (cached_PasswordHash c) password
              then Inl ErrInvalidPassword
              else Inr (cached_TargetURL c),
         s))"
proof (intro conjI impI)
  assume a: "FindBySlug e dbnow slug (repo s) = Inr (Some u) \<and> now < ExpiresAt u \<and>
    (\<forall>c. cache_Get e now slug (cache s) = Inr (Some c) \<longrightarrow> c = ToCached u)"
  then have find: "FindBySlug e dbnow slug (repo s) = Inr (Some u)"
    and live: "now < ExpiresAt u"
    and coherent: "\<forall>c. cache_Get e now slug (cache s) = Inr (Some c) \<longrightarrow> c = ToCached u"
    by simp_all
  have look: "fst (lookupCached e dbnow now slug s) = Inr (Some (ToCached u))"
    by (rule lookupCached_live [OF find live coherent])
  have verify: "fst (VerifyPassword e dbnow now slug pw s) =
      (if PasswordHash u = None then Inr (TargetURL u)
       else if \<not> bcrypt_CompareHashAndPassword e (the (PasswordHash u)) pw
            then Inl ErrInvalidPassword
            else Inr (TargetURL u))" for pw
    by (cases "PasswordHash u") (simp_all add: VerifyPassword_fst look ToCached_def)
  {
    assume "PasswordHash u = Some h \<and> bcrypt_CompareHashAndPassword e h password"
    then show "fst (VerifyPassword e dbnow now slug password s) = Inr (TargetURL u)"
      by (simp add: verify)
  }
  {
    assume "PasswordHash u = Some h \<and> \<not> bcrypt_CompareHashAndPassword e h password"
    then show "fst (VerifyPassword e dbnow now slug password s) = Inl ErrInvalidPassword"
      by (simp add: verify)
  }
  {
    assume "PasswordHash u = None"
    then show "fst (VerifyPassword e dbnow now slug password s) = Inr (TargetURL u)"
      and "fst (VerifyPassword e dbnow now slug [] s) = Inr (TargetURL u)"
      by (simp_all add: verify)
  }
next
  assume hit: "cache_Get e now slug (cache s) = Inr (Some c)"
  show "VerifyPassword e dbnow now slug password s =
        (if \<not> cached_Protected c then Inr (cached_TargetURL c)
         else if \<not> bcrypt_CompareHashAndPassword e (cached_PasswordHash c) password
              then Inl ErrInvalidPassword
              else Inr (cached_TargetURL c),
         s)"
    by (simp add: VerifyPassword_def lookupCached_hit [OF hit])
qed

lemma demo_bcrypt: "bcrypt_CompareHashAndPassword demo_env h p \<longleftrightarrow> h = ''$2a$10$'' @ p"
  by (simp add: demo_env_def)

lemma first_link_Create:
  "Create demo_env 0 token_bytes (demo_request ''hello'' ''24h'' ''old'') (demo_service []) =
     (Inr \<lparr>res_Slug = ''hello'', res_ShortURL = ''https://sho.rt/hello'',
           res_ExpiresAt = 86400000000000, res_Protected = True, res_ManageToken = demo_token\<rparr>,
      \<lparr>repo = [demo_row ''hello'' (Some ''$2a$10$old'') 86400000000000],
       cache = [cacheKey ''hello'' \<mapsto> (old_cached, Some 86400000000000)],
       baseURL = ''https://sho.rt''\<rparr>)"
proof -
  let ?req = "demo_request ''hello'' ''24h'' ''old''"
  have ttl: "ValidTTLs (req_TTL ?req) = Some 86400000000000"
    by (simp add: demo_request_def ValidTTLs_24h)
  have r: "resolveSlug demo_env (demo_service []) (req_Slug ?req) token_bytes = Inr (''hello'', token_bytes)"
    by (simp add: demo_request_def hello_free_resolve)
  have pw: "hashPassword demo_env (req_Password ?req) = Inr (Some ''$2a$10$old'')"
    by (simp add: demo_request_def hashPassword_def demo_env_def)
  have ins: "\<not> db_fails demo_env (QInsert (new_url ?req ''hello'' (Some ''$2a$10$old'') demo_token_hash
      (0 + 86400000000000)))"
    by (simp add: demo_env_simps)
  have free: "\<not> slug_taken demo_env (repo (demo_service [])) ''hello''"
    by (simp add: slug_taken_def demo_service_def)
  show ?thesis
    unfolding Create_success [OF ttl r pw demo_generateManageToken ins free]
    by (simp add: demo_service_def demo_request_def new_url_def demo_row_def cache_Set_def
        demo_env_simps ToCached_def old_cached_def TIMESTAMP_round_def)
qed

lemma first_link_state_eq:
  "first_link_state =
     \<lparr>repo = [demo_row ''hello'' (Some ''$2a$10$old'') 86400000000000],
      cache = [cacheKey ''hello'' \<mapsto> (old_cached, Some 86400000000000)],
      baseURL = ''https://sho.rt''\<rparr>"
  by (simp add: first_link_state_def first_link_Create)

lemma expired_link_ExpireEarly:
  "ExpireEarly cache_down_env 10000000000 ''hello'' demo_token first_link_state =
     (Inr (),
      \<lparr>repo = [demo_row ''hello'' (Some ''$2a$10$old'') 10000000000],
       cache = [cacheKey ''hello'' \<mapsto> (old_cached, Some 86400000000000)],
       baseURL = ''https://sho.rt''\<rparr>)"
  by (simp add: ExpireEarly_def ExpireBySlug_def expire_matches_def cache_Delete_def
      cache_down_env_simps first_link_state_eq demo_row_def demo_token_hash_def)

lemma swept_state_eq:
  "swept_state =
     \<lparr>repo = [],
      cache = [cacheKey ''hello'' \<mapsto> (old_cached, Some 86400000000000)],
      baseURL = ''https://sho.rt''\<rparr>"
  by (simp add: swept_state_def RunCleanup_tick_def DeleteExpired_def expired_link_state_def
      expired_link_ExpireEarly demo_env_simps demo_row_def)

lemma second_link_Create:
  "Create cache_down_env 30000000000 token_bytes (demo_request ''hello'' ''24h'' ''new'') swept_state =
     (Inr \<lparr>res_Slug = ''hello'', res_ShortURL = ''https://sho.rt/hello'',
           res_ExpiresAt = 86430000000000, res_Protected = True, res_ManageToken = demo_token\<rparr>,
      \<lparr>repo = [second_link_row],
       cache = [cacheKey ''hello'' \<mapsto> (old_cached, Some 86400000000000)],
       baseURL = ''https://sho.rt''\<rparr>)"
proof -
  let ?req = "demo_request ''hello'' ''24h'' ''new''"
  have ttl: "ValidTTLs (req_TTL ?req) = Some 86400000000000"
    by (simp add: demo_request_def ValidTTLs_24h)
  have r: "resolveSlug cache_down_env swept_state (req_Slug ?req) token_bytes = Inr (''hello'', token_bytes)"
    using hello_valid
    by (simp add: demo_request_def resolveSlug_def SlugExists_def slug_taken_def
        cache_down_env_simps swept_state_eq)
  have pw: "hashPassword cache_down_env (req_Password ?req) = Inr (Some ''$2a$10$new'')"
    by (simp add: demo_request_def hashPassword_def cache_down_env_def demo_env_def)
  have g: "generateManageToken cache_down_env token_bytes = Inr ((demo_token, demo_token_hash), [])"
    by (simp add: generateManageToken_def manageTokenLength_def randomBase62_token_bytes
        cache_down_env_simps demo_token_hash_def)
  have ins: "\<not> db_fails cache_down_env (QInsert (new_url ?req ''hello'' (Some ''$2a$10$new'')
      demo_token_hash (30000000000 + 86400000000000)))"
    by (simp add: cache_down_env_simps)
  have free: "\<not> slug_taken cache_down_env (repo swept_state) ''hello''"
    by (simp add: slug_taken_def swept_state_eq)
  show ?thesis
    unfolding Create_success [OF ttl r pw g ins free]
    by (simp add: swept_state_eq demo_request_def new_url_def demo_row_def cache_Set_def
        cache_down_env_simps second_link_row_def TIMESTAMP_round_def)
qed

lemma second_link_state_eq:
  "second_link_state =
     \<lparr>repo = [second_link_row],
      cache = [cacheKey ''hello'' \<mapsto> (old_cached, Some 86400000000000)],
      baseURL = ''https://sho.rt''\<rparr>"
  by (simp add: second_link_state_def second_link_Create)

lemma second_link_cache_Get:
  "cache_Get demo_env 40000000000 ''hello'' (cache second_link_state) = Inr (Some old_cached)"
  by (simp add: cache_Get_def demo_env_simps second_link_state_eq)

text \<open>
  Claim C7 as stated ("for every live protected record the correct password returns the
  target URL") fails where the cache still holds the entry of an earlier link of the same
  slug. In the second run the store's live record of \<open>hello\<close> at 40 s is the second link,
  whose password is \<open>new\<close>; the cache holds the entry of the first, so \<open>new\<close> is refused
  and \<open>old\<close> opens the link.
\<close>

theorem VerifyPassword_stale_cache_counterexample:
  "fst (Create demo_env 0 token_bytes (demo_request ''hello'' ''24h'' ''old'') (demo_service [])) =
     Inr \<lparr>res_Slug = ''hello'', res_ShortURL = ''https://sho.rt/hello'',
          res_ExpiresAt = 86400000000000, res_Protected = True, res_ManageToken = demo_token\<rparr> \<and>
   fst (ExpireEarly cache_down_env 10000000000 ''hello'' demo_token first_link_state) = Inr () \<and>
   repo swept_state = [] \<and>
   fst (Create cache_down_env 30000000000 token_bytes (demo_request ''hello'' ''24h'' ''new'')
          swept_state) =
     Inr \<lparr>res_Slug = ''hello'', res_ShortURL = ''https://sho.rt/hello'',
          res_ExpiresAt = 86430000000000, res_Protected = True, res_ManageToken = demo_token\<rparr> \<and>
   FindBySlug demo_env 40000000000 ''hello'' (repo second_link_state) = Inr (Some second_link_row) \<and>
   40000000000 < ExpiresAt second_link_row \<and>
   PasswordHash second_link_row = Some ''$2a$10$new'' \<and>
   bcrypt_CompareHashAndPassword demo_env ''$2a$10$new'' ''new'' \<and>
   \<not> bcrypt_CompareHashAndPassword demo_env ''$2a$10$new'' ''old'' \<and>
   fst (VerifyPassword demo_env 40000000000 40000000000 ''hello'' ''new'' second_link_state) =
     Inl ErrInvalidPassword \<and>
   fst (VerifyPassword demo_env 40000000000 40000000000 ''hello'' ''old'' second_link_state) =
     Inr ''https://example.com''"
proof -
  have find: "FindBySlug demo_env 40000000000 ''hello'' (repo second_link_state) =
      Inr (Some second_link_row)"
    by (simp add: FindBySlug_def demo_env_simps second_link_state_eq second_link_row_def demo_row_def)
  have row: "40000000000 < ExpiresAt second_link_row"
    "PasswordHash second_link_row = Some ''$2a$10$new''"
    by (simp_all add: second_link_row_def demo_row_def)
  have bc: "bcrypt_CompareHashAndPassword demo_env ''$2a$10$new'' ''new''"
    "\<not> bcrypt_CompareHashAndPassword demo_env ''$2a$10$new'' ''old''"
    by (simp_all add: demo_env_def)
  have v: "fst (VerifyPassword demo_env 40000000000 40000000000 ''hello'' ''new'' second_link_state) =
      Inl ErrInvalidPassword"
    "fst (VerifyPassword demo_env 40000000000 40000000000 ''hello'' ''old'' second_link_state) =
      Inr ''https://example.com''"
    by (simp_all add: VerifyPassword_def lookupCached_hit [OF second_link_cache_Get] old_cached_def
        demo_bcrypt)
  have c1: "fst (Create demo_env 0 token_bytes (demo_request ''hello'' ''24h'' ''old'') (demo_service [])) =
     Inr \<lparr>res_Slug = ''hello'', res_ShortURL = ''https://sho.rt/hello'',
          res_ExpiresAt = 86400000000000, res_Protected = True, res_ManageToken = demo_token\<rparr>"
    by (simp add: first_link_Create)
  have e1: "fst (ExpireEarly cache_down_env 10000000000 ''hello'' demo_token first_link_state) = Inr ()"
    by (simp add: expired_link_ExpireEarly)
  have sw: "repo swept_state = []" by (simp add: swept_state_eq)
  have c2: "fst (Create cache_down_env 30000000000 token_bytes (demo_request ''hello'' ''24h'' ''new'')
          swept_state) =
     Inr \<lparr>res_Slug = ''hello'', res_ShortURL = ''https://sho.rt/hello'',
          res_ExpiresAt = 86430000000000, res_Protected = True, res_ManageToken = demo_token\<rparr>"
    by (simp add: second_link_Create)
  from c1 e1 sw c2 find row bc v show ?thesis by (intro conjI)
qed

theorem VerifyPassword_by_protection_witness:
  "FindBySlug demo_env 20 ''hello'' [demo_row ''hello'' (Some ''$2a$10$secret'') 100] =
     Inr (Some (demo_row ''hello'' (Some ''$2a$10$secret'') 100)) \<and>
   fst (VerifyPassword demo_env 20 20 ''hello'' ''secret''
          (demo_service [demo_row ''hello'' (Some ''$2a$10$secret'') 100])) = Inr ''https://example.com'' \<and>
   fst (VerifyPassword demo_env 20 20 ''hello'' ''guess''
          (demo_service [demo_row ''hello'' (Some ''$2a$10$secret'') 100])) = Inl ErrInvalidPassword \<and>
   FindBySlug demo_env 20 ''hello'' [demo_row ''hello'' None 100] =
     Inr (Some (demo_row ''hello'' None 100)) \<and>
   fst (VerifyPassword demo_env 20 20 ''hello'' ''guess'' (demo_service [demo_row ''hello'' None 100])) =
     Inr ''https://example.com'' \<and>
   fst (VerifyPassword demo_env 20 20 ''hello'' [] (demo_service [demo_row ''hello'' None 100])) =
     Inr ''https://example.com'' \<and>
   cache_Get demo_env 20 ''hello'' (cache first_link_state) = Inr (Some old_cached) \<and>
   old_cached = ToCached (demo_row ''hello'' (Some ''$2a$10$old'') 86400000000000) \<and>
   fst (VerifyPassword demo_env 20 20 ''hello'' ''old'' first_link_state) = Inr ''https://example.com'' \<and>
   fst (VerifyPassword demo_env 20 20 ''hello'' ''guess'' first_link_state) = Inl ErrInvalidPassword \<and>
   VerifyPassword demo_env 40000000000 40000000000 ''hello'' ''new'' second_link_state =
     (Inl ErrInvalidPassword, second_link_state)"
proof -
  let ?p = "demo_row ''hello'' (Some ''$2a$10$secret'') 100"
  let ?o = "demo_row ''hello'' None 100"
  let ?f = "demo_row ''hello'' (Some ''$2a$10$old'') 86400000000000"
  have fp: "FindBySlug demo_env 20 ''hello'' (repo (demo_service [?p])) = Inr (Some ?p)"
    by (simp add: FindBySlug_def demo_env_simps demo_service_def demo_row_def)
  have fo: "FindBySlug demo_env 20 ''hello'' (repo (demo_service [?o])) = Inr (Some ?o)"
    by (simp add: FindBySlug_def demo_env_simps demo_service_def demo_row_def)
  have ff: "FindBySlug demo_env 20 ''hello'' (repo first_link_state) = Inr (Some ?f)"
    by (simp add: FindBySlug_def demo_env_simps first_link_state_eq demo_row_def)
  have lp: "20 < ExpiresAt ?p" and lo: "20 < ExpiresAt ?o" and lf: "20 < ExpiresAt ?f"
    by (simp_all add: demo_row_def)
  have cp: "\<forall>c. cache_Get demo_env 20 ''hello'' (cache (demo_service [?p])) = Inr (Some c) \<longrightarrow>
      c = ToCached ?p"
    by (simp add: cache_Get_def demo_env_simps demo_service_def)
  have co: "\<forall>c. cache_Get demo_env 20 ''hello'' (cache (demo_service [?o])) = Inr (Some c) \<longrightarrow>
      c = ToCached ?o"
    by (simp add: cache_Get_def demo_env_simps demo_service_def)
  have proj: "old_cached = ToCached ?f" by (simp add: old_cached_def ToCached_def demo_row_def)
  have getf: "cache_Get demo_env 20 ''hello'' (cache first_link_state) = Inr (Some old_cached)"
    by (simp add: cache_Get_def demo_env_simps first_link_state_eq)
  have cf: "\<forall>c. cache_Get demo_env 20 ''hello'' (cache first_link_state) = Inr (Some c) \<longrightarrow>
      c = ToCached ?f"
    by (simp add: getf proj)
  have hp: "PasswordHash ?p = Some ''$2a$10$secret''" and ho: "PasswordHash ?o = None"
    and hf: "PasswordHash ?f = Some ''$2a$10$old''"
    and tp: "TargetURL ?p = ''https://example.com''" and to: "TargetURL ?o = ''https://example.com''"
    and tf: "TargetURL ?f = ''https://example.com''"
    by (simp_all add: demo_row_def)
  have right: "bcrypt_CompareHashAndPassword demo_env ''$2a$10$secret'' ''secret''"
    and wrong: "\<not> bcrypt_CompareHashAndPassword demo_env ''$2a$10$secret'' ''guess''"
    and right_old: "bcrypt_CompareHashAndPassword demo_env ''$2a$10$old'' ''old''"
    and wrong_old: "\<not> bcrypt_CompareHashAndPassword demo_env ''$2a$10$old'' ''guess''"
    and wrong_new: "\<not> bcrypt_CompareHashAndPassword demo_env ''$2a$10$old'' ''new''"
    by (simp_all add: demo_env_def)
  from VerifyPassword_by_protection [of demo_env 20 "''hello''" "demo_service [?p]" ?p 20
      "''$2a$10$secret''" "''secret''"] fp lp cp hp right tp
  have 1: "fst (VerifyPassword demo_env 20 20 ''hello'' ''secret'' (demo_service [?p])) =
      Inr ''https://example.com''"
    by simp
  from VerifyPassword_by_protection [of demo_env 20 "''hello''" "demo_service [?p]" ?p 20
      "''$2a$10$secret''" "''guess''"] fp lp cp hp wrong
  have 2: "fst (VerifyPassword demo_env 20 20 ''hello'' ''guess'' (demo_service [?p])) =
      Inl ErrInvalidPassword"
    by simp
  from VerifyPassword_by_protection [of demo_env 20 "''hello''" "demo_service [?o]" ?o 20
      _ "''guess''"] fo lo co ho to
  have 3: "fst (VerifyPassword demo_env 20 20 ''hello'' ''guess'' (demo_service [?o])) =
      Inr ''https://example.com'' \<and>
      fst (VerifyPassword demo_env 20 20 ''hello'' [] (demo_service [?o])) = Inr ''https://example.com''"
    by simp
  from VerifyPassword_by_protection [of demo_env 20 "''hello''" first_link_state ?f 20
      "''$2a$10$old''" "''old''"] ff lf cf hf right_old tf
  have 4: "fst (VerifyPassword demo_env 20 20 ''hello'' ''old'' first_link_state) =
      Inr ''https://example.com''"
    by simp
  from VerifyPassword_by_protection [of demo_env 20 "''hello''" first_link_state ?f 20
      "''$2a$10$old''" "''guess''"] ff lf cf hf wrong_old
  have 5: "fst (VerifyPassword demo_env 20 20 ''hello'' ''guess'' first_link_state) =
      Inl ErrInvalidPassword"
    by simp
  from VerifyPassword_by_protection [of demo_env 40000000000 "''hello''" second_link_state _
      40000000000 _ "''new''" old_cached] second_link_cache_Get wrong_new
  have 6: "VerifyPassword demo_env 40000000000 40000000000 ''hello'' ''new'' second_link_state =
      (Inl ErrInvalidPassword, second_link_state)"
    by (simp add: old_cached_def)
  from fp fo have "FindBySlug demo_env 20 ''hello'' [?p] = Inr (Some ?p)"
    and "FindBySlug demo_env 20 ''hello'' [?o] = Inr (Some ?o)"
    by (simp_all add: demo_service_def)
  with 1 2 3 4 5 6 getf proj show ?thesis by simp
qed

section \<open>Early expiration\<close>

lemma ExpireBySlug_no_match:
  assumes "\<not> db_fails e (QExpire slug h)"
    and "\<forall>r \<in> set tbl. \<not> expire_matches e t slug h r"
  shows "ExpireBySlug e t slug h tbl = (Inr False, tbl)"
proof -
  have "filter (expire_matches e t slug h) tbl = []"
    using assms(2) by (simp add: filter_empty_conv)
  moreover have "map (\<lambda>r. if expire_matches e t slug h r then r\<lparr>ExpiresAt := t\<rparr> else r) tbl = tbl"
    using assms(2) by (simp add: map_idI)
  ultimately show ?thesis using assms(1) by (simp add: ExpireBySlug_def)
qed

lemma ExpireBySlug_match:
  assumes "\<not> db_fails e (QExpire slug h)" and "u \<in> set tbl" and "expire_matches e t slug h u"
  shows "fst (ExpireBySlug e t slug h tbl) = Inr True"
    and "u\<lparr>ExpiresAt := t\<rparr> \<in> set (snd (ExpireBySlug e t slug h tbl))"
proof -
  have "filter (expire_matches e t slug h) tbl \<noteq> []"
    using assms(2,3) by (auto simp: filter_empty_conv)
  then show "fst (ExpireBySlug e t slug h tbl) = Inr True"
    using assms(1) by (simp add: ExpireBySlug_def)
  have "(\<lambda>r. if expire_matches e t slug h r then r\<lparr>ExpiresAt := t\<rparr> else r) u \<in>
      (\<lambda>r. if expire_matches e t slug h r then r\<lparr>ExpiresAt := t\<rparr> else r) ` set tbl"
    using assms(2) by (rule imageI)
  then show "u\<lparr>ExpiresAt := t\<rparr> \<in> set (snd (ExpireBySlug e t slug h tbl))"
    using assms(1,3) by (simp add: ExpireBySlug_def)
qed

lemma ExpireBySlug_after:
  assumes "\<not> db_fails e (QExpire slug h)" and "t \<le> t2"
    and "r \<in> set (snd (ExpireBySlug e t slug h tbl))"
    and "collate e (Slug r) = collate e slug"
    and "collate e (ManageTokenHash r) = collate e h"
  shows "ExpiresAt r \<le> t"
proof -
  from assms(1,3) obtain r0 where r0: "r0 \<in> set tbl"
    and r: "r = (if expire_matches e t slug h r0 then r0\<lparr>ExpiresAt := t\<rparr> else r0)"
    by (auto simp: ExpireBySlug_def)
  show ?thesis
  proof (cases "expire_matches e t slug h r0")
    case True
    with r show ?thesis by simp
  next
    case False
    with r have "r = r0" by simp
    with False assms(4,5) show ?thesis by (simp add: expire_matches_def)
  qed
qed

lemma ExpireEarly_no_match:
  assumes "\<not> db_fails e (QExpire slug (hex_EncodeToString (Rep_digest (sha256_Sum256 e tok))))"
    and "\<forall>r \<in> set (repo s).
           \<not> expire_matches e t slug (hex_EncodeToString (Rep_digest (sha256_Sum256 e tok))) r"
  shows "ExpireEarly e t slug tok s = (Inl ErrInvalidManageToken, s)"
  by (simp add: ExpireEarly_def Let_def ExpireBySlug_no_match [OF assms])

text \<open>
  Claim C2. For a live record of the slug and a token whose hash the store compares
  equal to the stored one, \<open>ExpireEarly\<close> succeeds exactly once: the call at \<open>t1\<close> returns
  success, sets the record's expiration to \<open>t1\<close> and (the cache permitting) drops the
  cache entry; a second call with the same slug and token at any \<open>t2 \<ge> t1\<close> returns
  \<open>ErrInvalidManageToken\<close> and changes nothing, for the conditional update matches no row.
  The same failure is returned for a token whose hash matches that of no row of the slug.
\<close>

theorem ExpireEarly_exactly_once:
  assumes row: "u \<in> set (repo s)"
    and slug: "collate e (Slug u) = collate e slug"
    and live: "t1 < ExpiresAt u"
    and token: "collate e (ManageTokenHash u) =
                collate e (hex_EncodeToString (Rep_digest (sha256_Sum256 e tok)))"
    and up: "\<not> db_fails e (QExpire slug (hex_EncodeToString (Rep_digest (sha256_Sum256 e tok))))"
    and later: "t1 \<le> t2"
  shows "fst (ExpireEarly e t1 slug tok s) = Inr () \<and>
         u\<lparr>ExpiresAt := t1\<rparr> \<in> set (repo (snd (ExpireEarly e t1 slug tok s))) \<and>
         (\<not> cache_fails e (CDelete slug) \<longrightarrow>
            cache (snd (ExpireEarly e t1 slug tok s)) (cacheKey slug) = None) \<and>
         ExpireEarly e t2 slug tok (snd (ExpireEarly e t1 slug tok s)) =
           (Inl ErrInvalidManageToken, snd (ExpireEarly e t1 slug tok s)) \<and>
         ((\<forall>r \<in> set (repo s). collate e (Slug r) = collate e slug \<longrightarrow>
              collate e (ManageTokenHash r) \<noteq>
              collate e (hex_EncodeToString (Rep_digest (sha256_Sum256 e tok')))) \<and>
          \<not> db_fails e (QExpire slug (hex_EncodeToString (Rep_digest (sha256_Sum256 e tok')))) \<longrightarrow>
            ExpireEarly e t slug tok' s = (Inl ErrInvalidManageToken, s))"
proof -
  let ?h = "hex_EncodeToString (Rep_digest (sha256_Sum256 e tok))"
  let ?s1 = "snd (ExpireEarly e t1 slug tok s)"
  have m: "expire_matches e t1 slug ?h u"
    using slug live token by (simp add: expire_matches_def)
  note hit = ExpireBySlug_match [OF up row m]
  obtain tbl where eb: "ExpireBySlug e t1 slug ?h (repo s) = (Inr True, tbl)"
    using hit(1) by (cases "ExpireBySlug e t1 slug ?h (repo s)") simp
  have s1: "?s1 = s\<lparr>repo := tbl, cache := snd (cache_Delete e slug (cache s))\<rparr>"
    by (simp add: ExpireEarly_def Let_def eb)
  have first: "fst (ExpireEarly e t1 slug tok s) = Inr ()"
    by (simp add: ExpireEarly_def Let_def eb)
  have upd: "u\<lparr>ExpiresAt := t1\<rparr> \<in> set (repo ?s1)"
    using hit(2) by (simp add: s1 eb)
  have inval: "\<not> cache_fails e (CDelete slug) \<longrightarrow> cache ?s1 (cacheKey slug) = None"
    by (simp add: s1 cache_Delete_def)
  have none: "\<forall>r \<in> set (repo ?s1). \<not> expire_matches e t2 slug ?h r"
  proof
    fix r assume r: "r \<in> set (repo ?s1)"
    show "\<not> expire_matches e t2 slug ?h r"
    proof
      assume mm: "expire_matches e t2 slug ?h r"
      from r have "r \<in> set (snd (ExpireBySlug e t1 slug ?h (repo s)))" by (simp add: s1 eb)
      from ExpireBySlug_after [OF up later this] mm have "ExpiresAt r \<le> t1"
        by (simp add: expire_matches_def)
      with later mm show False by (simp add: expire_matches_def)
    qed
  qed
  have second: "ExpireEarly e t2 slug tok ?s1 = (Inl ErrInvalidManageToken, ?s1)"
    by (rule ExpireEarly_no_match [OF up none])
  have wrongtok: "(\<forall>r \<in> set (repo s). collate e (Slug r) = collate e slug \<longrightarrow>
              collate e (ManageTokenHash r) \<noteq>
              collate e (hex_EncodeToString (Rep_digest (sha256_Sum256 e tok')))) \<and>
          \<not> db_fails e (QExpire slug (hex_EncodeToString (Rep_digest (sha256_Sum256 e tok')))) \<longrightarrow>
            ExpireEarly e t slug tok' s = (Inl ErrInvalidManageToken, s)"
  proof
    assume a: "(\<forall>r \<in> set (repo s). collate e (Slug r) = collate e slug \<longrightarrow>
              collate e (ManageTokenHash r) \<noteq>
              collate e (hex_EncodeToString (Rep_digest (sha256_Sum256 e tok')))) \<and>
          \<not> db_fails e (QExpire slug (hex_EncodeToString (Rep_digest (sha256_Sum256 e tok'))))"
    then have "\<forall>r \<in> set (repo s).
        \<not> expire_matches e t slug (hex_EncodeToString (Rep_digest (sha256_Sum256 e tok'))) r"
      by (auto simp: expire_matches_def)
    with a show "ExpireEarly e t slug tok' s = (Inl ErrInvalidManageToken, s)"
      by (intro ExpireEarly_no_match) simp_all
  qed
  from first upd inval second wrongtok show ?thesis by (intro conjI)
qed

lemma wrong_token_hash:
  "fold_case demo_token_hash \<noteq>
   fold_case (hex_EncodeToString (Rep_digest (toy_Sum256 ''not-the-token'')))"
  by (simp add: demo_token_hash_def demo_token_def Rep_toy_Sum256 hex_EncodeToString_def
      hextable_def fold_case_def fold_char_def)

theorem ExpireEarly_exactly_once_witness:
  "repo created_state = [demo_row ''hello'' None 3600000000000] \<and>
   fst (ExpireEarly demo_env 10 ''hello'' demo_token created_state) = Inr () \<and>
   demo_row ''hello'' None 10 \<in>
     set (repo (snd (ExpireEarly demo_env 10 ''hello'' demo_token created_state))) \<and>
   cache (snd (ExpireEarly demo_env 10 ''hello'' demo_token created_state)) (cacheKey ''hello'') = None \<and>
   fst (ExpireEarly demo_env 15 ''hello'' demo_token
          (snd (ExpireEarly demo_env 10 ''hello'' demo_token created_state))) =
     Inl ErrInvalidManageToken \<and>
   ExpireEarly demo_env 10 ''hello'' ''not-the-token'' created_state =
     (Inl ErrInvalidManageToken, created_state)"
proof -
  let ?u = "demo_row ''hello'' None 3600000000000"
  have rows: "repo created_state = [?u]" by (simp add: created_state_eq)
  have row: "?u \<in> set (repo created_state)" by (simp add: rows)
  have slug: "collate demo_env (Slug ?u) = collate demo_env ''hello''" by (simp add: demo_row_def)
  have live: "10 < ExpiresAt ?u" by (simp add: demo_row_def)
  have token: "collate demo_env (ManageTokenHash ?u) =
      collate demo_env (hex_EncodeToString (Rep_digest (sha256_Sum256 demo_env demo_token)))"
    by (simp add: demo_row_def demo_token_hash_def demo_env_simps)
  have up: "\<not> db_fails demo_env
      (QExpire ''hello'' (hex_EncodeToString (Rep_digest (sha256_Sum256 demo_env demo_token))))"
    by (simp add: demo_env_simps)
  have later: "(10::int) \<le> 15" by simp
  have wrong: "\<forall>r \<in> set (repo created_state). collate demo_env (Slug r) = collate demo_env ''hello'' \<longrightarrow>
      collate demo_env (ManageTokenHash r) \<noteq>
      collate demo_env (hex_EncodeToString (Rep_digest (sha256_Sum256 demo_env ''not-the-token'')))"
    using wrong_token_hash by (simp add: rows demo_row_def demo_env_simps)
  have up': "\<not> db_fails demo_env
      (QExpire ''hello'' (hex_EncodeToString (Rep_digest (sha256_Sum256 demo_env ''not-the-token''))))"
    by (simp add: demo_env_simps)
  have down: "\<not> cache_fails demo_env (CDelete ''hello'')" by (simp add: demo_env_simps)
  from ExpireEarly_exactly_once [OF row slug live token up later, of "''not-the-token''" 10]
    wrong up' down
  have "fst (ExpireEarly demo_env 10 ''hello'' demo_token created_state) = Inr () \<and>
      ?u\<lparr>ExpiresAt := 10\<rparr> \<in>
        set (repo (snd (ExpireEarly demo_env 10 ''hello'' demo_token created_state))) \<and>
      cache (snd (ExpireEarly demo_env 10 ''hello'' demo_token created_state)) (cacheKey ''hello'') = None \<and>
      ExpireEarly demo_env 15 ''hello'' demo_token
          (snd (ExpireEarly demo_env 10 ''hello'' demo_token created_state)) =
        (Inl ErrInvalidManageToken, snd (ExpireEarly demo_env 10 ''hello'' demo_token created_state)) \<and>
      ExpireEarly demo_env 10 ''hello'' ''not-the-token'' created_state =
        (Inl ErrInvalidManageToken, created_state)"
    by blast
  moreover have "?u\<lparr>ExpiresAt := 10\<rparr> = demo_row ''hello'' None 10" by (simp add: demo_row_def)
  ultimately show ?thesis using rows by simp
qed

section \<open>Cache failures\<close>

lemma SlugExists_cache_fails [simp]:
  "SlugExists (e\<lparr>cache_fails := f\<rparr>) slug tbl = SlugExists e slug tbl"
  by (simp add: SlugExists_def slug_taken_def)

lemma suggestAlternative_from_cache_fails:
  "suggestAlternative_from (e\<lparr>cache_fails := f\<rparr>) s slug i = suggestAlternative_from e s slug i"
proof (induction e s slug i rule: suggestAlternative_from.induct)
  case (1 e s slug i)
  show ?case
  proof (cases "i \<le> maxCollisionTries")
    case False
    then show ?thesis
      by (simp add: suggestAlternative_from.simps [of _ s slug i])
  next
    case True
    show ?thesis
    proof (cases "SlugExists e (candidate slug i) (repo s)")
      case (Inl err)
      with True show ?thesis by (simp add: suggestAlternative_from.simps [of _ s slug i])
    next
      case (Inr ex)
      show ?thesis
      proof (cases ex)
        case False
        with True Inr show ?thesis by (simp add: suggestAlternative_from.simps [of _ s slug i])
      next
        case True2: True
        then have "\<not> \<not> ex" by simp
        from "1.IH" [OF True Inr this] True Inr True2 show ?thesis
          by (simp add: suggestAlternative_from.simps [of _ s slug i])
      qed
    qed
  qed
qed

lemma generateUniqueSlug_rounds_cache_fails:
  "generateUniqueSlug_rounds (e\<lparr>cache_fails := f\<rparr>) s k src = generateUniqueSlug_rounds e s k src"
  by (induction k arbitrary: src) (simp_all split: sum.splits prod.splits)

lemma resolveSlug_cache_fails:
  "resolveSlug (e\<lparr>cache_fails := f\<rparr>) s requested src = resolveSlug e s requested src"
  by (simp add: resolveSlug_def generateUniqueSlug_def generateUniqueSlug_rounds_cache_fails
      suggestAlternative_def suggestAlternative_from_cache_fails split: sum.splits)

lemma hashPassword_cache_fails:
  "hashPassword (e\<lparr>cache_fails := f\<rparr>) password = hashPassword e password"
  by (simp add: hashPassword_def)

lemma generateManageToken_cache_fails:
  "generateManageToken (e\<lparr>cache_fails := f\<rparr>) src = generateManageToken e src"
  by (simp add: generateManageToken_def split: sum.splits prod.splits)

lemma repo_Create_cache_fails:
  "repo_Create (e\<lparr>cache_fails := f\<rparr>) url tbl = repo_Create e url tbl"
  by (simp add: repo_Create_def slug_taken_def)

lemma ExpireBySlug_cache_fails:
  "ExpireBySlug (e\<lparr>cache_fails := f\<rparr>) t slug h tbl = ExpireBySlug e t slug h tbl"
proof -
  have "expire_matches (e\<lparr>cache_fails := f\<rparr>) t slug h = expire_matches e t slug h"
    by (rule ext) (simp add: expire_matches_def)
  then show ?thesis by (simp add: ExpireBySlug_def)
qed

lemma Create_cache_fails:
  "fst (Create (e\<lparr>cache_fails := f\<rparr>) now src req s) = fst (Create e now src req s) \<and>
   repo (snd (Create (e\<lparr>cache_fails := f\<rparr>) now src req s)) = repo (snd (Create e now src req s))"
  by (simp add: Create_def resolveSlug_cache_fails hashPassword_cache_fails
      generateManageToken_cache_fails repo_Create_cache_fails Let_def
      split: option.splits sum.splits prod.splits)

lemma ExpireEarly_cache_fails:
  "fst (ExpireEarly (e\<lparr>cache_fails := f\<rparr>) t slug tok s) = fst (ExpireEarly e t slug tok s) \<and>
   repo (snd (ExpireEarly (e\<lparr>cache_fails := f\<rparr>) t slug tok s)) = repo (snd (ExpireEarly e t slug tok s))"
  by (simp add: ExpireEarly_def ExpireBySlug_cache_fails Let_def split: sum.splits prod.splits)

lemma store_lookup_not_cache_error:
  "store_lookup e dbnow now slug tbl \<notin> {Inl ErrRedisGet, Inl ErrRedisSet, Inl ErrRedisDelete}"
  by (simp add: store_lookup_def FindBySlug_def split: option.splits)

lemma lookupCached_not_cache_error:
  "fst (lookupCached e dbnow now slug s) \<notin> {Inl ErrRedisGet, Inl ErrRedisSet, Inl ErrRedisDelete}"
proof (cases "\<exists>c. cache_Get e now slug (cache s) = Inr (Some c)")
  case True
  then obtain c where "cache_Get e now slug (cache s) = Inr (Some c)" by blast
  from lookupCached_hit [OF this] show ?thesis by simp
next
  case False
  then have "\<forall>c. cache_Get e now slug (cache s) \<noteq> Inr (Some c)" by blast
  from lookupCached_miss [OF this] store_lookup_not_cache_error show ?thesis by simp
qed

lemma VerifyPassword_not_cache_error:
  "fst (VerifyPassword e dbnow now slug password s) \<notin>
     {Inl ErrRedisGet, Inl ErrRedisSet, Inl ErrRedisDelete}"
  using lookupCached_not_cache_error [of e dbnow now slug s]
  by (auto simp: VerifyPassword_fst split: sum.splits option.splits)

text \<open>
  Claim C8. A cache failure never fails the operation. When \<open>cache.Get\<close> fails in
  \<open>Resolve\<close> or \<open>VerifyPassword\<close>, the lookup answers what the durable store answers; when
  the cache misses and \<open>cache.Set\<close> fails after the store read, it answers the same and
  leaves the state as it was; no result of a lookup is a cache error. The result of
  \<open>Create\<close> and of \<open>ExpireEarly\<close>, and the table they leave, do not depend on which
  cache commands fail: where the operation succeeds with a working cache it succeeds with
  a failing one.
\<close>

theorem cache_failure_degrades_to_store:
  "(cache_fails e (CGet slug) \<longrightarrow>
      fst (lookupCached e dbnow now slug s) = store_lookup e dbnow now slug (repo s) \<and>
      fst (Resolve e dbnow now slug s) = store_lookup e dbnow now slug (repo s) \<and>
      fst (VerifyPassword e dbnow now slug password s) =
        (case store_lookup e dbnow now slug (repo s) of
           Inl err \<Rightarrow> Inl err
         | Inr None \<Rightarrow> Inr []
         | Inr (Some cached) \<Rightarrow>
             if \<not> cached_Protected cached then Inr (cached_TargetURL cached)
             else if \<not> bcrypt_CompareHashAndPassword e (cached_PasswordHash cached) password
                  then Inl ErrInvalidPassword
                  else Inr (cached_TargetURL cached))) \<and>
   (cache_Get e now slug (cache s) = Inr None \<and> cache_fails e (CSet slug) \<longrightarrow>
      fst (lookupCached e dbnow now slug s) = store_lookup e dbnow now slug (repo s) \<and>
      snd (lookupCached e dbnow now slug s) = s) \<and>
   fst (lookupCached e dbnow now slug s) \<notin> {Inl ErrRedisGet, Inl ErrRedisSet, Inl ErrRedisDelete} \<and>
   fst (VerifyPassword e dbnow now slug password s) \<notin>
     {Inl ErrRedisGet, Inl ErrRedisSet, Inl ErrRedisDelete} \<and>
   fst (Create (e\<lparr>cache_fails := f\<rparr>) now src req s) = fst (Create e now src req s) \<and>
   repo (snd (Create (e\<lparr>cache_fails := f\<rparr>) now src req s)) = repo (snd (Create e now src req s)) \<and>
   fst (ExpireEarly (e\<lparr>cache_fails := f\<rparr>) t slug tok s) = fst (ExpireEarly e t slug tok s) \<and>
   repo (snd (ExpireEarly (e\<lparr>cache_fails := f\<rparr>) t slug tok s)) =
     repo (snd (ExpireEarly e t slug tok s))"
proof (intro conjI impI)
  assume down: "cache_fails e (CGet slug)"
  then have miss: "\<forall>c. cache_Get e now slug (cache s) \<noteq> Inr (Some c)"
    by (simp add: cache_Get_def)
  show l: "fst (lookupCached e dbnow now slug s) = store_lookup e dbnow now slug (repo s)"
    by (rule lookupCached_miss [OF miss])
  then show "fst (Resolve e dbnow now slug s) = store_lookup e dbnow now slug (repo s)"
    by (simp add: Resolve_def)
  show "fst (VerifyPassword e dbnow now slug password s) =
        (case store_lookup e dbnow now slug (repo s) of
           Inl err \<Rightarrow> Inl err
         | Inr None \<Rightarrow> Inr []
         | Inr (Some cached) \<Rightarrow>
             if \<not> cached_Protected cached then Inr (cached_TargetURL cached)
             else if \<not> bcrypt_CompareHashAndPassword e (cached_PasswordHash cached) password
                  then Inl ErrInvalidPassword
                  else Inr (cached_TargetURL cached))"
    by (simp only: VerifyPassword_fst l)
next
  assume a: "cache_Get e now slug (cache s) = Inr None \<and> cache_fails e (CSet slug)"
  then have miss: "\<forall>c. cache_Get e now slug (cache s) \<noteq> Inr (Some c)" by simp
  show "fst (lookupCached e dbnow now slug s) = store_lookup e dbnow now slug (repo s)"
    by (rule lookupCached_miss [OF miss])
  from a show "snd (lookupCached e dbnow now slug s) = s"
    by (simp add: lookupCached_def cache_Set_def Let_def split: sum.splits option.splits)
next
  show "fst (lookupCached e dbnow now slug s) \<notin> {Inl ErrRedisGet, Inl ErrRedisSet, Inl ErrRedisDelete}"
    by (rule lookupCached_not_cache_error)
  show "fst (VerifyPassword e dbnow now slug password s) \<notin>
     {Inl ErrRedisGet, Inl ErrRedisSet, Inl ErrRedisDelete}"
    by (rule VerifyPassword_not_cache_error)
  show "fst (Create (e\<lparr>cache_fails := f\<rparr>) now src req s) = fst (Create e now src req s)"
    by (simp add: Create_cache_fails)
  show "repo (snd (Create (e\<lparr>cache_fails := f\<rparr>) now src req s)) = repo (snd (Create e now src req s))"
    by (simp add: Create_cache_fails)
  show "fst (ExpireEarly (e\<lparr>cache_fails := f\<rparr>) t slug tok s) = fst (ExpireEarly e t slug tok s)"
    by (simp add: ExpireEarly_cache_fails)
  show "repo (snd (ExpireEarly (e\<lparr>cache_fails := f\<rparr>) t slug tok s)) =
     repo (snd (ExpireEarly e t slug tok s))"
    by (simp add: ExpireEarly_cache_fails)
qed

lemma demo_Create_hello:
  "fst (Create demo_env 0 token_bytes (demo_request ''hello'' ''1h'' []) (demo_service [])) =
     Inr \<lparr>res_Slug = ''hello'', res_ShortURL = ''https://sho.rt/hello'',
          res_ExpiresAt = 3600000000000, res_Protected = False, res_ManageToken = demo_token\<rparr>"
proof -
  let ?req = "demo_request ''hello'' ''1h'' []"
  have ttl: "ValidTTLs (req_TTL ?req) = Some 3600000000000"
    by (simp add: demo_request_def ValidTTLs_1h)
  have r: "resolveSlug demo_env (demo_service []) (req_Slug ?req) token_bytes = Inr (''hello'', token_bytes)"
    by (simp add: demo_request_def hello_free_resolve)
  have pw: "hashPassword demo_env (req_Password ?req) = Inr None"
    by (simp add: demo_request_def hashPassword_empty)
  have ins: "\<not> db_fails demo_env (QInsert (new_url ?req ''hello'' None demo_token_hash (0 + 3600000000000)))"
    by (simp add: demo_env_simps)
  have free: "\<not> slug_taken demo_env (repo (demo_service [])) ''hello''"
    by (simp add: slug_taken_def demo_service_def)
  show ?thesis
    unfolding Create_success [OF ttl r pw demo_generateManageToken ins free]
    by (simp add: demo_service_def)
qed

lemma demo_ExpireEarly_hello:
  "fst (ExpireEarly demo_env 10 ''hello'' demo_token created_state) = Inr ()"
  by (simp add: ExpireEarly_def ExpireBySlug_def expire_matches_def
      demo_env_simps created_state_eq demo_row_def demo_token_hash_def)

lemma created_state_store_lookup:
  "store_lookup cache_down_env 20 20 ''hello'' (repo created_state) = Inr (Some demo_cached)"
  by (simp add: store_lookup_def FindBySlug_def created_state_eq demo_row_def ToCached_def
      demo_cached_def cache_down_env_simps)

lemma set_down_env_simps:
  "collate set_down_env = fold_case" "db_fails set_down_env q = False"
  "cache_fails set_down_env (CGet k) = False" "cache_fails set_down_env (CSet k) = True"
  by (simp_all add: set_down_env_def demo_env_def)

theorem cache_failure_degrades_to_store_witness:
  "cache_fails cache_down_env (CGet ''hello'') \<and>
   fst (Resolve cache_down_env 20 20 ''hello'' created_state) = Inr (Some demo_cached) \<and>
   fst (VerifyPassword cache_down_env 20 20 ''hello'' [] created_state) = Inr ''https://example.com'' \<and>
   fst (Create cache_down_env 0 token_bytes (demo_request ''hello'' ''1h'' []) (demo_service [])) =
     Inr \<lparr>res_Slug = ''hello'', res_ShortURL = ''https://sho.rt/hello'',
          res_ExpiresAt = 3600000000000, res_Protected = False, res_ManageToken = demo_token\<rparr> \<and>
   fst (ExpireEarly cache_down_env 10 ''hello'' demo_token created_state) = Inr () \<and>
   cache_Get set_down_env 20 ''hello'' (cache (demo_service [demo_row ''hello'' None 100])) = Inr None \<and>
   cache_fails set_down_env (CSet ''hello'') \<and>
   lookupCached set_down_env 20 20 ''hello'' (demo_service [demo_row ''hello'' None 100]) =
     (Inr (Some demo_cached), demo_service [demo_row ''hello'' None 100])"
proof -
  let ?s = "demo_service [demo_row ''hello'' None 100]"
  have miss: "cache_Get set_down_env 20 ''hello'' (cache ?s) = Inr None"
    by (simp add: cache_Get_def set_down_env_simps demo_service_def)
  have setdown: "cache_fails set_down_env (CSet ''hello'')" by (simp add: set_down_env_simps)
  have st: "store_lookup set_down_env 20 20 ''hello'' (repo ?s) = Inr (Some demo_cached)"
    by (simp add: store_lookup_def FindBySlug_def demo_service_def demo_row_def ToCached_def
        demo_cached_def set_down_env_simps)
  from cache_failure_degrades_to_store [of set_down_env "''hello''" 20 20 ?s] miss setdown st
  have "fst (lookupCached set_down_env 20 20 ''hello'' ?s) = Inr (Some demo_cached) \<and>
      snd (lookupCached set_down_env 20 20 ''hello'' ?s) = ?s"
    by simp
  then have setfail: "lookupCached set_down_env 20 20 ''hello'' ?s = (Inr (Some demo_cached), ?s)"
    by (simp add: prod_eq_iff)
  have down: "cache_fails cache_down_env (CGet ''hello'')" by (simp add: cache_down_env_simps)
  note inst = cache_failure_degrades_to_store [of cache_down_env "''hello''" 20 20 created_state "[]"]
  from inst down created_state_store_lookup
  have look: "fst (Resolve cache_down_env 20 20 ''hello'' created_state) = Inr (Some demo_cached) \<and>
      fst (VerifyPassword cache_down_env 20 20 ''hello'' [] created_state) =
        (if \<not> cached_Protected demo_cached then Inr (cached_TargetURL demo_cached)
         else if \<not> bcrypt_CompareHashAndPassword cache_down_env (cached_PasswordHash demo_cached) []
              then Inl ErrInvalidPassword
              else Inr (cached_TargetURL demo_cached))"
    by simp
  note inst2 = cache_failure_degrades_to_store [where e = demo_env and s = created_state
      and f = "\<lambda>op. True" and t = 10 and slug = "''hello''" and tok = demo_token]
  note inst3 = cache_failure_degrades_to_store [where e = demo_env and s = "demo_service []"
      and f = "\<lambda>op. True" and now = 0 and src = token_bytes
      and req = "demo_request ''hello'' ''1h'' []"]
  from inst3 demo_Create_hello
  have cr: "fst (Create cache_down_env 0 token_bytes (demo_request ''hello'' ''1h'' []) (demo_service [])) =
     Inr \<lparr>res_Slug = ''hello'', res_ShortURL = ''https://sho.rt/hello'',
          res_ExpiresAt = 3600000000000, res_Protected = False, res_ManageToken = demo_token\<rparr>"
    by (simp add: cache_down_env_def)
  from inst2 demo_ExpireEarly_hello
  have ex: "fst (ExpireEarly cache_down_env 10 ''hello'' demo_token created_state) = Inr ()"
    by (simp add: cache_down_env_def)
  from look cr ex down miss setdown setfail show ?thesis by (simp add: demo_cached_def)
qed

end
